theory Spec2Isabelle
  imports Main
begin

section \<open>JavaScript values and the object store\<close>

text \<open>
  The node works on JavaScript values. Primitive values are immutable; objects, arrays
  and functions live in a store and are handled through references, so that two
  records can share (alias) a nested object. An address is an index into the store,
  and allocation appends a cell. Finite numbers are abstracted to integers (the JSON
  round trip is the identity on every finite number).
\<close>

type_synonym addr = nat

datatype val =
    VUndefined
  | VNull
  | VBool bool
  | VNum int
  | VStr string
  | VBigInt int
  | VRef addr

type_synonym props = "(string \<times> val) list"

text \<open>
  An error object that the engine creates when an operation fails (a \<open>TypeError\<close>, a
  \<open>SyntaxError\<close>, a \<open>RangeError\<close>): nothing else refers to it, and it has a name and
  a message and no other property the node reads.
\<close>

record err =
  err_name :: string
  err_message :: string

text \<open>
  A cell of the store: its kind and its own enumerable named properties. A
  \<open>Throwing v\<close> cell is an object whose \<open>toJSON\<close> hook throws the value \<open>v\<close>
  when the object is serialised.
\<close>

datatype kind = Plain | Array "val list" | Function | Throwing val

datatype obj = Obj kind props

type_synonym heap = "obj list"

text \<open>
  What a \<open>catch\<close> clause receives: an error the engine has just created, or the
  value that the host or a hook threw. JavaScript throws any value: an object of the
  store (an \<open>Error\<close> with its \<open>message\<close> and \<open>context\<close> properties, say), a
  primitive, \<open>null\<close> or \<open>undefined\<close>.
\<close>

datatype thrown = NativeError err | ThrownValue val

fun truthy :: "val \<Rightarrow> bool" where
  "truthy VUndefined = False"
| "truthy VNull = False"
| "truthy (VBool b) = b"
| "truthy (VNum n) = (n \<noteq> 0)"
| "truthy (VStr s) = (s \<noteq> [])"
| "truthy (VBigInt n) = (n \<noteq> 0)"
| "truthy (VRef a) = True"

definition lookup :: "props \<Rightarrow> string \<Rightarrow> val" where
  "lookup ps k = (case map_of ps k of None \<Rightarrow> VUndefined | Some v \<Rightarrow> v)"

definition TypeError :: "string \<Rightarrow> err" where
  "TypeError m = \<lparr>err_name = ''TypeError'', err_message = m\<rparr>"

definition SyntaxError :: "string \<Rightarrow> err" where
  "SyntaxError m = \<lparr>err_name = ''SyntaxError'', err_message = m\<rparr>"

definition RangeError :: "string \<Rightarrow> err" where
  "RangeError m = \<lparr>err_name = ''RangeError'', err_message = m\<rparr>"

text \<open>
  Property read \<open>v.k\<close> for the fixed property names the node uses: reading from
  \<open>undefined\<close> or \<open>null\<close> throws, any other primitive has no such property.
\<close>

fun get_prop :: "heap \<Rightarrow> val \<Rightarrow> string \<Rightarrow> err + val" where
  "get_prop h VUndefined k = Inl (TypeError ''Cannot read properties of undefined'')"
| "get_prop h VNull k = Inl (TypeError ''Cannot read properties of null'')"
| "get_prop h (VRef a) k =
     (if a < length h then (case h ! a of Obj kd ps \<Rightarrow> Inr (lookup ps k)) else Inr VUndefined)"
| "get_prop h v k = Inr VUndefined"

section \<open>JSON.stringify and JSON.parse\<close>

text \<open>
  The structure reachable from a value, unfolded into a tree. As in
  \<open>JSON.stringify\<close>, the stack holds the objects currently being traversed, and an
  object met again while it is on the stack is a cycle.
\<close>

datatype tree =
    TUndefined
  | TNull
  | TBool bool
  | TNum int
  | TStr string
  | TBigInt int
  | TCycle
  | TObject "(string \<times> tree) list"
  | TArray "tree list" "(string \<times> tree) list"
  | TFunction "(string \<times> tree) list"
  | TThrowing val "(string \<times> tree) list"

function view :: "heap \<Rightarrow> addr list \<Rightarrow> val \<Rightarrow> tree" where
  "view h stk VUndefined = TUndefined"
| "view h stk VNull = TNull"
| "view h stk (VBool b) = TBool b"
| "view h stk (VNum n) = TNum n"
| "view h stk (VStr s) = TStr s"
| "view h stk (VBigInt n) = TBigInt n"
| "view h stk (VRef a) =
     (if a \<in> set stk then TCycle
      else if length h \<le> a then TUndefined
      else (case h ! a of Obj kd ps \<Rightarrow>
        (case kd of
           Plain \<Rightarrow> TObject (map (\<lambda>p. (fst p, view h (a # stk) (snd p))) ps)
         | Array xs \<Rightarrow> TArray (map (view h (a # stk)) xs)
                         (map (\<lambda>p. (fst p, view h (a # stk) (snd p))) ps)
         | Function \<Rightarrow> TFunction (map (\<lambda>p. (fst p, view h (a # stk) (snd p))) ps)
         | Throwing e \<Rightarrow> TThrowing e (map (\<lambda>p. (fst p, view h (a # stk) (snd p))) ps))))"
  by pat_completeness auto

termination view
proof -
  have pos: "0 < card ({..<n::nat} - set stk)" if "a \<notin> set stk" and "a < n" for a n stk
  proof -
    have "a \<in> {..<n} - set stk"
      using that by simp
    then show ?thesis
      by (metis card_gt_0_iff empty_iff finite_Diff finite_lessThan)
  qed
  show ?thesis
    by (relation "measure (\<lambda>(h, stk, v). card ({..<length h} - set stk))")
       (auto simp: not_le dest: pos)
qed

text \<open>
  A JSON document, the result of \<open>JSON.stringify\<close> and the argument of
  \<open>JSON.parse\<close>; the text syntax between the two is left out.
\<close>

datatype jsondoc =
    JNull
  | JBool bool
  | JNum int
  | JStr string
  | JArr "jsondoc list"
  | JObj "(string \<times> jsondoc) list"

definition circular_error :: err where
  "circular_error = TypeError ''Converting circular structure to JSON''"

definition bigint_error :: err where
  "bigint_error = TypeError ''Do not know how to serialize a BigInt''"

text \<open>
  Serialisation walks the structure in property order and stops at the first error. A
  value that is \<open>undefined\<close> or a function has no JSON form (\<open>None\<close>): as a property
  it is left out, as an array element it becomes \<open>null\<close>. Named properties of an
  array are not serialised. A hook that throws ends the serialisation with the value it
  throws. What a \<open>BigInt\<close> gives depends on the runtime and is the parameter
  \<open>B\<close>: the language throws a \<open>TypeError\<close>, a runtime that installs
  \<open>BigInt.prototype.toJSON\<close> serialises what that hook returns.
\<close>

fun to_json :: "(int \<Rightarrow> thrown + jsondoc option) \<Rightarrow> tree \<Rightarrow> thrown + jsondoc option"
  and to_json_props ::
    "(int \<Rightarrow> thrown + jsondoc option) \<Rightarrow> (string \<times> tree) list \<Rightarrow> thrown + (string \<times> jsondoc) list"
  and to_json_elems ::
    "(int \<Rightarrow> thrown + jsondoc option) \<Rightarrow> tree list \<Rightarrow> thrown + jsondoc list" where
  "to_json B TUndefined = Inr None"
| "to_json B TNull = Inr (Some JNull)"
| "to_json B (TBool b) = Inr (Some (JBool b))"
| "to_json B (TNum n) = Inr (Some (JNum n))"
| "to_json B (TStr s) = Inr (Some (JStr s))"
| "to_json B (TBigInt n) = B n"
| "to_json B TCycle = Inl (NativeError circular_error)"
| "to_json B (TObject ps) =
     (case to_json_props B ps of Inl e \<Rightarrow> Inl e | Inr kvs \<Rightarrow> Inr (Some (JObj kvs)))"
| "to_json B (TArray xs ps) =
     (case to_json_elems B xs of Inl e \<Rightarrow> Inl e | Inr js \<Rightarrow> Inr (Some (JArr js)))"
| "to_json B (TFunction ps) = Inr None"
| "to_json B (TThrowing v ps) = Inl (ThrownValue v)"
| "to_json_props B [] = Inr []"
| "to_json_props B (p # ps) =
     (case to_json B (snd p) of
        Inl e \<Rightarrow> Inl e
      | Inr r \<Rightarrow>
          (case to_json_props B ps of
             Inl e \<Rightarrow> Inl e
           | Inr kvs \<Rightarrow> Inr (case r of None \<Rightarrow> kvs | Some j \<Rightarrow> (fst p, j) # kvs)))"
| "to_json_elems B [] = Inr []"
| "to_json_elems B (x # xs) =
     (case to_json B x of
        Inl e \<Rightarrow> Inl e
      | Inr r \<Rightarrow>
          (case to_json_elems B xs of
             Inl e \<Rightarrow> Inl e
           | Inr js \<Rightarrow> Inr ((case r of None \<Rightarrow> JNull | Some j \<Rightarrow> j) # js)))"

definition stringify ::
  "(int \<Rightarrow> thrown + jsondoc option) \<Rightarrow> heap \<Rightarrow> val \<Rightarrow> thrown + jsondoc option" where
  "stringify B h v = to_json B (view h [] v)"

text \<open>
  Parsing builds the value of a document out of new cells only: nothing that exists
  already is referenced or changed. (The documents parsed here come from
  \<open>stringify\<close>, where an object has each key once.)
\<close>

fun parse :: "jsondoc \<Rightarrow> heap \<Rightarrow> val \<times> heap"
  and parse_props :: "(string \<times> jsondoc) list \<Rightarrow> heap \<Rightarrow> props \<times> heap"
  and parse_elems :: "jsondoc list \<Rightarrow> heap \<Rightarrow> val list \<times> heap" where
  "parse JNull h = (VNull, h)"
| "parse (JBool b) h = (VBool b, h)"
| "parse (JNum n) h = (VNum n, h)"
| "parse (JStr s) h = (VStr s, h)"
| "parse (JArr js) h =
     (case parse_elems js h of (xs, h') \<Rightarrow> (VRef (length h'), h' @ [Obj (Array xs) []]))"
| "parse (JObj kvs) h =
     (case parse_props kvs h of (ps, h') \<Rightarrow> (VRef (length h'), h' @ [Obj Plain ps]))"
| "parse_props [] h = ([], h)"
| "parse_props (p # kvs) h =
     (case parse (snd p) h of (v, h') \<Rightarrow>
        (case parse_props kvs h' of (ps, h'') \<Rightarrow> ((fst p, v) # ps, h'')))"
| "parse_elems [] h = ([], h)"
| "parse_elems (j # js) h =
     (case parse j h of (v, h') \<Rightarrow>
        (case parse_elems js h' of (xs, h'') \<Rightarrow> (v # xs, h'')))"

definition undefined_json_error :: err where
  "undefined_json_error = SyntaxError ''\"undefined\" is not valid JSON''"

text \<open>\<open>JSON.parse(JSON.stringify(v))\<close>, the deep clone of the node.\<close>

definition cloneJson ::
  "(int \<Rightarrow> thrown + jsondoc option) \<Rightarrow> heap \<Rightarrow> val \<Rightarrow> thrown + val \<times> heap" where
  "cloneJson B h v =
     (case stringify B h v of
        Inl e \<Rightarrow> Inl e
      | Inr None \<Rightarrow> Inl (NativeError undefined_json_error)
      | Inr (Some j) \<Rightarrow> Inr (parse j h))"

fun put :: "string \<Rightarrow> 'a \<Rightarrow> (string \<times> 'a) list \<Rightarrow> (string \<times> 'a) list" where
  "put k v [] = [(k, v)]"
| "put k v (p # ps) = (if fst p = k then (k, v) # ps else p # put k v ps)"

text \<open>
  The name of an array element: the decimal numeral, without leading zeros, of an
  index below \<open>2^32 - 1\<close>.
\<close>

definition is_digit :: "char \<Rightarrow> bool" where
  "is_digit c = (c \<in> set ''0123456789'')"

definition digit_of :: "char \<Rightarrow> nat" where
  "digit_of c = of_char c - 48"

definition digits_value :: "string \<Rightarrow> nat" where
  "digits_value k = foldl (\<lambda>n c. 10 * n + digit_of c) 0 k"

definition array_index :: "string \<Rightarrow> nat option" where
  "array_index k =
     (if k \<noteq> [] \<and> list_all is_digit k \<and> (hd k \<noteq> CHR ''0'' \<or> k = ''0'')
         \<and> digits_value k < 4294967295
      then Some (digits_value k) else None)"

text \<open>
  The assignment \<open>a[k] = v\<close> on an array: \<open>length\<close> resizes the array or throws,
  an index stores an element (the array grows as needed), any other name stores a
  named property. A hole of the array reads, and serialises, as \<open>undefined\<close> does,
  and is represented by it. The conversion of \<open>v\<close> to a length is the parameter
  \<open>L\<close>.
\<close>

definition array_assign ::
  "(val \<Rightarrow> err + nat) \<Rightarrow> val list \<Rightarrow> props \<Rightarrow> string \<Rightarrow> val \<Rightarrow> err + obj" where
  "array_assign L xs ps k v =
     (if k = ''length'' then
        (case L v of
           Inl e \<Rightarrow> Inl e
         | Inr n \<Rightarrow> Inr (Obj (Array (take n xs @ replicate (n - length xs) VUndefined)) ps))
      else (case array_index k of
              Some i \<Rightarrow>
                Inr (Obj (Array ((xs @ replicate (Suc i - length xs) VUndefined)[i := v])) ps)
            | None \<Rightarrow> Inr (Obj (Array xs) (put k v ps))))"

text \<open>
  The assignment \<open>o[k] = v\<close> in strict mode (the module is compiled with
  \<open>"use strict"\<close>): it throws on a primitive and stores a named property on an
  object. The name \<open>__proto__\<close> is the accessor of the prototype: assigning to it
  creates no property.
\<close>

fun set_prop :: "(val \<Rightarrow> err + nat) \<Rightarrow> heap \<Rightarrow> val \<Rightarrow> string \<Rightarrow> val \<Rightarrow> err + heap" where
  "set_prop L h (VRef a) k v =
     (if a < length h then
        (case h ! a of Obj kd ps \<Rightarrow>
           if k = ''__proto__'' then Inr h
           else (case kd of
                   Array xs \<Rightarrow>
                     (case array_assign L xs ps k v of
                        Inl e \<Rightarrow> Inl e
                      | Inr c \<Rightarrow> Inr (h[a := c]))
                 | _ \<Rightarrow> Inr (h[a := Obj kd (put k v ps)])))
      else Inr h)"
| "set_prop L h VUndefined k v = Inl (TypeError ''Cannot set properties of undefined'')"
| "set_prop L h VNull k v = Inl (TypeError ''Cannot set properties of null'')"
| "set_prop L h w k v = Inl (TypeError ''Cannot create property on a primitive value'')"

section \<open>The host and the state of one invocation\<close>

text \<open>
  A record of the batch (\<open>INodeExecutionData\<close>): the \<open>json\<close> payload is a value of
  the store, the optional \<open>binary\<close> payload is its top-level map, and \<open>pairedItem\<close>
  is the position tag.
\<close>

record item =
  json :: val
  binary :: "props option"
  pairedItem :: "nat option"

text \<open>
  What the node throws to its caller: a \<open>NodeOperationError\<close> it builds from a
  message and an options object, or anything else that leaves \<open>execute\<close> uncaught
  (the error thrown again in line 235, or what a \<open>catch\<close> block itself throws).
\<close>

datatype exn = Escaped thrown | NodeOperationError val props

text \<open>
  The host (\<open>IExecuteFunctions\<close>) and the runtime: the input batch, the two
  parameters, the continue-on-failure flag, the store as the invocation finds it, the
  outcome of the credential store at its n-th call and the outcome of the OAuth2
  request helper (each returns, or rejects with some value), and three conversions of
  the runtime that the source does not fix: the string conversion of a number or an
  object (for an object, what its \<open>toString\<close> method returns or throws), the
  serialisation of a \<open>BigInt\<close>, and the conversion of a value to an array length.
  The calls of \<open>LoggerProxy\<close> change nothing; of each call only the evaluation of
  its arguments is modelled, where that can throw.
\<close>

record host =
  getInputData :: "item list"
  accessTokenFieldName :: string
  dummyUrlParameter :: string
  continueOnFail :: bool
  memory :: heap
  credentialStore :: "nat \<Rightarrow> val + val"
  oauth2Helper :: "val \<Rightarrow> val + unit"
  toStringOf :: "heap \<Rightarrow> val \<Rightarrow> thrown + string"
  bigintToJSON :: "int \<Rightarrow> thrown + jsondoc option"
  arrayLengthOf :: "val \<Rightarrow> err + nat"

text \<open>
  The mutable state of \<open>execute\<close>: the store, the calls made to the host so far, and
  the two local variables that are assigned inside \<open>try\<close> blocks and read after them.
\<close>

record state =
  store :: heap
  fetches :: nat
  probes :: "val list"
  dummyUrl :: val
  refreshedCredentials :: val

type_synonym ('e, 'a) prog = "state \<Rightarrow> ('e + 'a) \<times> state"

definition returnE :: "'a \<Rightarrow> ('e, 'a) prog" where
  "returnE a = (\<lambda>s. (Inr a, s))"

definition throwE :: "'e \<Rightarrow> ('e, 'a) prog" where
  "throwE e = (\<lambda>s. (Inl e, s))"

definition bindE :: "('e, 'a) prog \<Rightarrow> ('a \<Rightarrow> ('e, 'b) prog) \<Rightarrow> ('e, 'b) prog" where
  "bindE m f = (\<lambda>s. case m s of (Inl e, s') \<Rightarrow> (Inl e, s') | (Inr a, s') \<Rightarrow> f a s')"

definition try_catch :: "('e, 'a) prog \<Rightarrow> ('e \<Rightarrow> ('x, 'a) prog) \<Rightarrow> ('x, 'a) prog" where
  "try_catch m handler =
     (\<lambda>s. case m s of (Inl e, s') \<Rightarrow> handler e s' | (Inr a, s') \<Rightarrow> (Inr a, s'))"

text \<open>An evaluation inside a \<open>try\<close> block, and one outside (what it throws escapes).\<close>

definition attempt :: "(heap \<Rightarrow> err + 'a) \<Rightarrow> (thrown, 'a) prog" where
  "attempt f = (\<lambda>s. case f (store s) of Inl e \<Rightarrow> (Inl (NativeError e), s) | Inr a \<Rightarrow> (Inr a, s))"

definition uncaught :: "(heap \<Rightarrow> thrown + 'a) \<Rightarrow> (exn, 'a) prog" where
  "uncaught f = (\<lambda>s. case f (store s) of Inl t \<Rightarrow> (Inl (Escaped t), s) | Inr a \<Rightarrow> (Inr a, s))"

definition getCredentials :: "host \<Rightarrow> (thrown, val) prog" where
  "getCredentials H =
     (\<lambda>s. (case credentialStore H (fetches s) of Inl v \<Rightarrow> Inl (ThrownValue v) | Inr c \<Rightarrow> Inr c,
           s\<lparr>fetches := Suc (fetches s)\<rparr>))"

definition requestOAuth2 :: "host \<Rightarrow> val \<Rightarrow> (thrown, unit) prog" where
  "requestOAuth2 H url =
     (\<lambda>s. (case oauth2Helper H url of Inl v \<Rightarrow> Inl (ThrownValue v) | Inr u \<Rightarrow> Inr u,
           s\<lparr>probes := probes s @ [url]\<rparr>))"

definition init_state :: "host \<Rightarrow> state" where
  "init_state H =
     \<lparr>store = memory H, fetches = 0, probes = [],
      dummyUrl = VStr (dummyUrlParameter H), refreshedCredentials = VUndefined\<rparr>"

section \<open>What a catch block reads of the value it caught\<close>

text \<open>\<open>Error.prototype.toString\<close>\<close>

definition err_toString :: "err \<Rightarrow> string" where
  "err_toString e =
     (if err_name e = [] then err_message e
      else if err_message e = [] then err_name e
      else err_name e @ '': '' @ err_message e)"

text \<open>
  \<open>error.message\<close> and \<open>error.context\<close>: a property read, which throws a
  \<open>TypeError\<close> when the value caught is \<open>undefined\<close> or \<open>null\<close>.
\<close>

definition read_message :: "heap \<Rightarrow> thrown \<Rightarrow> thrown + val" where
  "read_message h error =
     (case error of
        NativeError e \<Rightarrow> Inr (VStr (err_message e))
      | ThrownValue v \<Rightarrow>
          (case get_prop h v ''message'' of Inl e \<Rightarrow> Inl (NativeError e) | Inr m \<Rightarrow> Inr m))"

definition read_context :: "heap \<Rightarrow> thrown \<Rightarrow> thrown + val" where
  "read_context h error =
     (case error of
        NativeError e \<Rightarrow> Inr VUndefined
      | ThrownValue v \<Rightarrow>
          (case get_prop h v ''context'' of Inl e \<Rightarrow> Inl (NativeError e) | Inr c \<Rightarrow> Inr c))"

text \<open>The string conversion of a value inside a template literal.\<close>

fun js_to_string :: "host \<Rightarrow> heap \<Rightarrow> val \<Rightarrow> thrown + string" where
  "js_to_string H h VUndefined = Inr ''undefined''"
| "js_to_string H h VNull = Inr ''null''"
| "js_to_string H h (VBool b) = Inr (if b then ''true'' else ''false'')"
| "js_to_string H h (VStr s) = Inr s"
| "js_to_string H h v = toStringOf H h v"

text \<open>\<open>error.toString()\<close>: a method call, which throws on \<open>undefined\<close> and \<open>null\<close>.\<close>

definition call_toString :: "host \<Rightarrow> heap \<Rightarrow> thrown \<Rightarrow> thrown + string" where
  "call_toString H h error =
     (case error of
        NativeError e \<Rightarrow> Inr (err_toString e)
      | ThrownValue v \<Rightarrow>
          (case get_prop h v ''toString'' of
             Inl e \<Rightarrow> Inl (NativeError e)
           | Inr m \<Rightarrow> js_to_string H h v))"

section \<open>Step 1: the refresh trigger\<close>

definition optional_chain :: "heap \<Rightarrow> val \<Rightarrow> string \<Rightarrow> err + val" where
  "optional_chain h v k = (if v = VUndefined \<or> v = VNull then Inr VUndefined else get_prop h v k)"

text \<open>
  \<open>initialCredentials.tokenUrl || initialCredentials.auth?.oauth_token_url || ''\<close>
\<close>

definition default_dummyUrl :: "heap \<Rightarrow> val \<Rightarrow> err + val" where
  "default_dummyUrl h initialCredentials =
     (case get_prop h initialCredentials ''tokenUrl'' of
        Inl e \<Rightarrow> Inl e
      | Inr tokenUrl \<Rightarrow>
          if truthy tokenUrl then Inr tokenUrl
          else (case get_prop h initialCredentials ''auth'' of
                  Inl e \<Rightarrow> Inl e
                | Inr auth \<Rightarrow>
                    (case optional_chain h auth ''oauth_token_url'' of
                       Inl e \<Rightarrow> Inl e
                     | Inr u \<Rightarrow> Inr (if truthy u then u else VStr []))))"

definition refresh_try :: "host \<Rightarrow> (thrown, unit) prog" where
  "refresh_try H =
     bindE (getCredentials H) (\<lambda>initialCredentials.
     bindE (\<lambda>s. if \<not> truthy (dummyUrl s)
                 then bindE (attempt (\<lambda>h. default_dummyUrl h initialCredentials))
                        (\<lambda>u s. (Inr (), s\<lparr>dummyUrl := u\<rparr>)) s
                 else (Inr (), s)) (\<lambda>_.
     (\<lambda>s. if \<not> truthy (dummyUrl s)
           then (Inr (), s\<lparr>refreshedCredentials := initialCredentials\<rparr>)
           else requestOAuth2 H (dummyUrl s) s)))"

text \<open>
  The handler of lines 131 to 143. The arguments of the warning of line 133 are
  evaluated first: \<open>error.message\<close>, its conversion to a string, and
  \<open>error.toString()\<close>. The handler of the fallback fetch (line 139) reads
  \<open>innerError.message\<close> in the same way.
\<close>

definition refresh_catch :: "host \<Rightarrow> thrown \<Rightarrow> (exn, unit) prog" where
  "refresh_catch H error =
     bindE (uncaught (\<lambda>h. read_message h error)) (\<lambda>message.
     bindE (uncaught (\<lambda>h. js_to_string H h message)) (\<lambda>text.
     bindE (uncaught (\<lambda>h. call_toString H h error)) (\<lambda>description.
     (\<lambda>s. if \<not> truthy (refreshedCredentials s)
           then try_catch
                  (bindE (getCredentials H) (\<lambda>c s. (Inr (), s\<lparr>refreshedCredentials := c\<rparr>)))
                  (\<lambda>innerError.
                     bindE (uncaught (\<lambda>h. read_message h innerError)) (\<lambda>innerMessage.
                     bindE (uncaught (\<lambda>h. js_to_string H h innerMessage)) (\<lambda>innerText.
                     returnE ()))) s
           else (Inr (), s)))))"

definition refreshTrigger :: "host \<Rightarrow> (exn, unit) prog" where
  "refreshTrigger H = try_catch (refresh_try H) (refresh_catch H)"

section \<open>Step 2: the credential fetch\<close>

definition fetch_failed_message :: "string \<Rightarrow> string" where
  "fetch_failed_message text =
     ''Failed to retrieve OAuth2 credentials after refresh attempt: '' @ text"

definition fetch_catch :: "host \<Rightarrow> thrown \<Rightarrow> (exn, unit) prog" where
  "fetch_catch H credentialError =
     bindE (uncaught (\<lambda>h. read_message h credentialError)) (\<lambda>message.
     bindE (uncaught (\<lambda>h. js_to_string H h message)) (\<lambda>text.
     throwE (NodeOperationError (VStr (fetch_failed_message text)) [])))"

definition credentialFetch :: "host \<Rightarrow> (exn, unit) prog" where
  "credentialFetch H =
     try_catch
       (\<lambda>s. if \<not> truthy (refreshedCredentials s)
                \<or> (truthy (dummyUrl s) \<and> \<not> truthy (refreshedCredentials s))
             then bindE (getCredentials H) (\<lambda>c s. (Inr (), s\<lparr>refreshedCredentials := c\<rparr>)) s
             else (Inr (), s))
       (fetch_catch H)"

section \<open>Step 3: the token extraction\<close>

text \<open>Property read on a value that is known to be truthy (it cannot throw).\<close>

definition read_prop :: "heap \<Rightarrow> val \<Rightarrow> string \<Rightarrow> val" where
  "read_prop h v k = (case get_prop h v k of Inl e \<Rightarrow> VUndefined | Inr x \<Rightarrow> x)"

definition js_or :: "val \<Rightarrow> val \<Rightarrow> val" where
  "js_or a b = (if truthy a then a else b)"

definition extractToken :: "heap \<Rightarrow> val \<Rightarrow> val" where
  "extractToken h c =
     (if truthy (read_prop h c ''accessToken'') then read_prop h c ''accessToken''
      else if truthy (read_prop h c ''access_token'') then read_prop h c ''access_token''
      else if truthy (read_prop h c ''token'') then read_prop h c ''token''
      else if truthy (read_prop h c ''oauthTokenData'') then
        (let tokenData = read_prop h c ''oauthTokenData''
         in js_or (read_prop h tokenData ''access_token'') (read_prop h tokenData ''accessToken''))
      else VUndefined)"

definition no_credentials_message :: string where
  "no_credentials_message = ''Failed to retrieve OAuth2 credentials.''"

definition no_token_message :: string where
  "no_token_message = ''No access token found in the OAuth2 credentials structure even after refresh attempt. Verify credential setup, authorization, and structure (e.g., check if token is nested under `oauthTokenData`).''"

definition tokenExtract :: "(exn, val) prog" where
  "tokenExtract =
     (\<lambda>s. if \<not> truthy (refreshedCredentials s)
           then (Inl (NodeOperationError (VStr no_credentials_message) []), s)
           else (let accessToken = extractToken (store s) (refreshedCredentials s)
                 in if \<not> truthy accessToken
                    then (Inl (NodeOperationError (VStr no_token_message) []), s)
                    else (Inr accessToken, s)))"

text \<open>
  The extraction of the earlier build of the node, which probes \<open>oauth.access_token\<close>
  and \<open>data.access_token\<close> between \<open>token\<close> and \<open>oauthTokenData\<close>.
\<close>

definition js_and :: "val \<Rightarrow> val \<Rightarrow> val" where
  "js_and a b = (if truthy a then b else a)"

definition extractToken_earlier :: "heap \<Rightarrow> val \<Rightarrow> val" where
  "extractToken_earlier h c =
     (if truthy (read_prop h c ''accessToken'') then read_prop h c ''accessToken''
      else if truthy (read_prop h c ''access_token'') then read_prop h c ''access_token''
      else if truthy (read_prop h c ''token'') then read_prop h c ''token''
      else if truthy (js_and (read_prop h c ''oauth'')
                             (read_prop h (read_prop h c ''oauth'') ''access_token''))
      then read_prop h (read_prop h c ''oauth'') ''access_token''
      else if truthy (js_and (read_prop h c ''data'')
                             (read_prop h (read_prop h c ''data'') ''access_token''))
      then read_prop h (read_prop h c ''data'') ''access_token''
      else if truthy (read_prop h c ''oauthTokenData'') then
        (let tokenData = read_prop h c ''oauthTokenData''
         in js_or (read_prop h tokenData ''access_token'') (read_prop h tokenData ''accessToken''))
      else VUndefined)"

section \<open>Step 4: the batch\<close>

text \<open>
  The body of the \<open>try\<close> block of the loop: clone the payload, build the new
  record, store the token in the clone. The shallow copy of \<open>binary\<close> has the same
  top-level entries as the input's.
\<close>

definition item_try :: "host \<Rightarrow> val \<Rightarrow> nat \<Rightarrow> (thrown, item) prog" where
  "item_try H accessToken itemIndex =
     (\<lambda>s. let it = getInputData H ! itemIndex in
        (case cloneJson (bigintToJSON H) (store s) (json it) of
           Inl e \<Rightarrow> (Inl e, s)
         | Inr (copy, h') \<Rightarrow>
             (let newItem = \<lparr>json = copy, binary = binary it, pairedItem = Some itemIndex\<rparr>
              in case set_prop (arrayLengthOf H) h' (json newItem) (accessTokenFieldName H)
                        accessToken of
                   Inl e \<Rightarrow> (Inl (NativeError e), s\<lparr>store := h'\<rparr>)
                 | Inr h'' \<Rightarrow> (Inr newItem, s\<lparr>store := h''\<rparr>))))"

text \<open>
  The handler of lines 224 to 242. In continue-on-failure mode it reads
  \<open>error.message\<close>, pushes the error record and then evaluates \<open>error.toString()\<close>
  for the warning. Otherwise it reads \<open>error.context\<close>: when that is truthy, the
  assignment of line 234 writes \<open>itemIndex\<close> into that object, in place, and the
  value caught is thrown again; when it is not, a \<open>NodeOperationError\<close> is built from
  \<open>error.message\<close> and \<open>error.toString()\<close>. Whatever these reads throw leaves the
  handler, and \<open>execute\<close> with it.
\<close>

definition item_catch :: "host \<Rightarrow> nat \<Rightarrow> thrown \<Rightarrow> (exn, item) prog" where
  "item_catch H itemIndex error =
     (if continueOnFail H then
        bindE (uncaught (\<lambda>h. read_message h error)) (\<lambda>message.
        bindE (\<lambda>s. (Inr \<lparr>json = VRef (length (store s)), binary = None,
                         pairedItem = Some itemIndex\<rparr>,
                    s\<lparr>store := store s @
                       [Obj Plain [(''error'',
                          js_or message (VStr ''Unknown error processing item''))]]\<rparr>))
          (\<lambda>errorItem.
        bindE (uncaught (\<lambda>h. call_toString H h error)) (\<lambda>description.
        returnE errorItem)))
      else
        bindE (uncaught (\<lambda>h. read_context h error)) (\<lambda>context.
        if truthy context then
          (\<lambda>s. case set_prop (arrayLengthOf H) (store s) context ''itemIndex''
                       (VNum (int itemIndex)) of
                  Inl e \<Rightarrow> (Inl (Escaped (NativeError e)), s)
                | Inr h' \<Rightarrow> (Inl (Escaped error), s\<lparr>store := h'\<rparr>))
        else
          bindE (uncaught (\<lambda>h. read_message h error)) (\<lambda>message.
          bindE (uncaught (\<lambda>h. call_toString H h error)) (\<lambda>description.
          throwE (NodeOperationError (js_or message (VStr ''Error processing item''))
                    [(''itemIndex'', VNum (int itemIndex)),
                     (''message'', VStr description)])))))"

text \<open>One iteration: the \<open>try\<close> block and its handler.\<close>

definition item_step :: "host \<Rightarrow> val \<Rightarrow> nat \<Rightarrow> (exn, item) prog" where
  "item_step H accessToken itemIndex =
     try_catch (item_try H accessToken itemIndex) (item_catch H itemIndex)"

function batchEnrich :: "host \<Rightarrow> val \<Rightarrow> nat \<Rightarrow> item list \<Rightarrow> (exn, item list) prog" where
  "batchEnrich H accessToken itemIndex returnItems s =
     (if itemIndex < length (getInputData H) then
        (case item_step H accessToken itemIndex s of
           (Inl x, s') \<Rightarrow> (Inl x, s')
         | (Inr newItem, s') \<Rightarrow>
             batchEnrich H accessToken (Suc itemIndex) (returnItems @ [newItem]) s')
      else (Inr returnItems, s))"
  by pat_completeness auto

termination batchEnrich
  by (relation "measure (\<lambda>(H, accessToken, itemIndex, returnItems, s).
                  length (getInputData H) - itemIndex)") auto

declare batchEnrich.simps [simp del]

section \<open>The node\<close>

definition execute_from :: "host \<Rightarrow> (exn, item list list) prog" where
  "execute_from H =
     bindE (refreshTrigger H) (\<lambda>_.
     bindE (credentialFetch H) (\<lambda>_.
     bindE tokenExtract (\<lambda>accessToken.
     bindE (batchEnrich H accessToken 0 []) (\<lambda>returnItems.
     returnE [returnItems]))))"

definition execute :: "host \<Rightarrow> (exn + item list list) \<times> state" where
  "execute H = execute_from H (init_state H)"

section \<open>The statements the node is compared with\<close>

text \<open>
  The credential fetch with the guard reduced to its first disjunct, and the node
  built on it.
\<close>

definition credentialFetch_simplified :: "host \<Rightarrow> (exn, unit) prog" where
  "credentialFetch_simplified H =
     try_catch
       (\<lambda>s. if \<not> truthy (refreshedCredentials s)
             then bindE (getCredentials H) (\<lambda>c s. (Inr (), s\<lparr>refreshedCredentials := c\<rparr>)) s
             else (Inr (), s))
       (fetch_catch H)"

definition execute_simplified :: "host \<Rightarrow> (exn + item list list) \<times> state" where
  "execute_simplified H =
     bindE (refreshTrigger H) (\<lambda>_.
     bindE (credentialFetch_simplified H) (\<lambda>_.
     bindE tokenExtract (\<lambda>accessToken.
     bindE (batchEnrich H accessToken 0 []) (\<lambda>returnItems.
     returnE [returnItems])))) (init_state H)"

text \<open>Steps 1 and 2 together: what makes a credential record available to step 3.\<close>

definition credential_phases :: "host \<Rightarrow> (exn, unit) prog" where
  "credential_phases H = bindE (refreshTrigger H) (\<lambda>_. credentialFetch H)"

text \<open>
  The extraction as the specification words it: six shapes in a fixed priority order,
  of which the first non-empty one is returned.
\<close>

definition six_shapes :: "heap \<Rightarrow> val \<Rightarrow> val list" where
  "six_shapes h c =
     [read_prop h c ''accessToken'',
      read_prop h c ''access_token'',
      read_prop h c ''token'',
      read_prop h (read_prop h c ''oauth'') ''access_token'',
      read_prop h (read_prop h c ''data'') ''access_token'',
      js_or (read_prop h (read_prop h c ''oauthTokenData'') ''access_token'')
            (read_prop h (read_prop h c ''oauthTokenData'') ''accessToken'')]"

fun first_nonempty :: "val list \<Rightarrow> val option" where
  "first_nonempty [] = None"
| "first_nonempty (v # vs) = (if truthy v then Some v else first_nonempty vs)"

definition spec_TokenExtract :: "heap \<Rightarrow> val \<Rightarrow> val option" where
  "spec_TokenExtract h c = first_nonempty (six_shapes h c)"

text \<open>
  A caught value that the handlers can report: its \<open>message\<close> can be read and
  converted to a string, and its \<open>toString\<close> returns. An error object is such a value.
\<close>

definition reportable :: "host \<Rightarrow> heap \<Rightarrow> thrown \<Rightarrow> bool" where
  "reportable H h error =
     (case read_message h error of
        Inl x \<Rightarrow> False
      | Inr m \<Rightarrow>
          (case js_to_string H h m of
             Inl x \<Rightarrow> False
           | Inr text \<Rightarrow> (case call_toString H h error of Inl x \<Rightarrow> False | Inr d \<Rightarrow> True)))"

text \<open>
  The state in which the loop starts iteration \<open>i\<close>, the record a failing
  iteration leaves in continue-on-failure mode, and the cell of its payload.
\<close>

primrec state_before :: "host \<Rightarrow> val \<Rightarrow> nat \<Rightarrow> state \<Rightarrow> state" where
  "state_before H tok 0 s = s"
| "state_before H tok (Suc i) s = snd (item_step H tok i (state_before H tok i s))"

definition error_record :: "addr \<Rightarrow> nat \<Rightarrow> item" where
  "error_record a i = \<lparr>json = VRef a, binary = None, pairedItem = Some i\<rparr>"

definition error_cell :: "val \<Rightarrow> obj" where
  "error_cell message =
     Obj Plain [(''error'', js_or message (VStr ''Unknown error processing item''))]"

text \<open>An object after the assignment of line 234.\<close>

fun with_itemIndex :: "nat \<Rightarrow> obj \<Rightarrow> obj" where
  "with_itemIndex i (Obj kd ps) = Obj kd (put ''itemIndex'' (VNum (int i)) ps)"


text \<open>
  The tree of a JSON document, and the trees that are JSON-representable: those built
  from \<open>null\<close>, booleans, numbers, strings, arrays without named properties and plain
  objects.
\<close>

primrec embed :: "jsondoc \<Rightarrow> tree" where
  "embed JNull = TNull"
| "embed (JBool b) = TBool b"
| "embed (JNum n) = TNum n"
| "embed (JStr s) = TStr s"
| "embed (JArr js) = TArray (map embed js) []"
| "embed (JObj kvs) = TObject (map (map_prod id embed) kvs)"

primrec jsonable :: "tree \<Rightarrow> bool" where
  "jsonable TUndefined = False"
| "jsonable TNull = True"
| "jsonable (TBool b) = True"
| "jsonable (TNum n) = True"
| "jsonable (TStr s) = True"
| "jsonable (TBigInt n) = False"
| "jsonable TCycle = False"
| "jsonable (TObject ps) = list_all (pred_prod (\<lambda>k. True) jsonable) ps"
| "jsonable (TArray xs ps) = (list_all jsonable xs \<and> ps = [])"
| "jsonable (TFunction ps) = False"
| "jsonable (TThrowing v ps) = False"

text \<open>
  The addresses a cell refers to, and the addresses reachable from a value.
\<close>

fun cell_vals :: "obj \<Rightarrow> val list" where
  "cell_vals (Obj (Array xs) ps) = xs @ map snd ps"
| "cell_vals (Obj kd ps) = map snd ps"

definition cell_refs :: "obj \<Rightarrow> addr set" where
  "cell_refs c = {a. VRef a \<in> set (cell_vals c)}"

inductive_set reach :: "heap \<Rightarrow> val \<Rightarrow> addr set" for h :: heap and v :: val where
  root: "v = VRef a \<Longrightarrow> a \<in> reach h v"
| step: "a \<in> reach h v \<Longrightarrow> a < length h \<Longrightarrow> b \<in> cell_refs (h ! a) \<Longrightarrow> b \<in> reach h v"

text \<open>
  The tree of an object with one more binding, and the trees of JSON-representable
  objects (the payloads the postcondition is about).
\<close>

fun with_binding :: "string \<Rightarrow> tree \<Rightarrow> tree \<Rightarrow> tree" where
  "with_binding k t (TObject ps) = TObject (put k t ps)"
| "with_binding k t u = u"

fun json_object :: "tree \<Rightarrow> bool" where
  "json_object (TObject ps) = jsonable (TObject ps)"
| "json_object t = False"

text \<open>Steps 1 to 3 together: what extracts the token.\<close>

definition token_phases :: "host \<Rightarrow> (exn, val) prog" where
  "token_phases H = bindE (credential_phases H) (\<lambda>_. tokenExtract)"




section \<open>Concrete runtimes, credential records, batches and hosts\<close>

text \<open>
  The conversions of the runtime in the hosts below. Numbers are printed in decimal;
  the objects of these stores that have a \<open>name\<close> and a \<open>message\<close> are their error
  objects, and every other object is a plain one. A \<open>BigInt\<close> is not serialised (the
  language's own behaviour). A number, a boolean, \<open>null\<close> and a decimal numeral
  convert to an array length.
\<close>

fun decimal_nat :: "nat \<Rightarrow> string" where
  "decimal_nat n =
     (if n < 10 then [char_of (48 + n)]
      else decimal_nat (n div 10) @ [char_of (48 + n mod 10)])"

definition decimal :: "int \<Rightarrow> string" where
  "decimal n = (if n < 0 then CHR ''-'' # decimal_nat (nat (- n)) else decimal_nat (nat n))"

definition engine_toString :: "heap \<Rightarrow> val \<Rightarrow> thrown + string" where
  "engine_toString h v =
     (case v of
        VNum n \<Rightarrow> Inr (decimal n)
      | VBigInt n \<Rightarrow> Inr (decimal n)
      | _ \<Rightarrow>
          (case (read_prop h v ''name'', read_prop h v ''message'') of
             (VStr n, VStr m) \<Rightarrow> Inr (err_toString \<lparr>err_name = n, err_message = m\<rparr>)
           | _ \<Rightarrow> Inr ''[object Object]''))"

definition engine_bigint :: "int \<Rightarrow> thrown + jsondoc option" where
  "engine_bigint n = Inl (NativeError bigint_error)"

definition engine_arrayLength :: "val \<Rightarrow> err + nat" where
  "engine_arrayLength v =
     (case v of
        VNum n \<Rightarrow>
          if 0 \<le> n \<and> n < 4294967296 then Inr (nat n)
          else Inl (RangeError ''Invalid array length'')
      | VBool b \<Rightarrow> Inr (if b then 1 else 0)
      | VNull \<Rightarrow> Inr 0
      | VStr s \<Rightarrow>
          if list_all is_digit s \<and> digits_value s < 4294967296 then Inr (digits_value s)
          else Inl (RangeError ''Invalid array length'')
      | VBigInt n \<Rightarrow> Inl (TypeError ''Cannot convert a BigInt value to a number'')
      | _ \<Rightarrow> Inl (RangeError ''Invalid array length''))"

definition both_tokens :: heap where
  "both_tokens = [Obj Plain [(''accessToken'', VStr ''a''), (''access_token'', VStr ''b'')]]"

definition scenario_credentials :: heap where
  "scenario_credentials =
     [Obj Plain [(''access_token'', VStr ''xyz''), (''oauthTokenData'', VRef 1)],
      Obj Plain [(''accessToken'', VStr ''should-not-be-used'')]]"

text \<open>
  The scenario of the specification: one record \<open>{foo: 1}\<close>, the token
  \<open>abc123\<close>, the field name \<open>accessToken\<close>. The credential record names a token
  URL, and the probe sent to it fails with the error object at address 2.
\<close>

definition scenario_host :: host where
  "scenario_host =
     \<lparr>getInputData = [\<lparr>json = VRef 1, binary = None, pairedItem = None\<rparr>],
      accessTokenFieldName = ''accessToken'',
      dummyUrlParameter = [],
      continueOnFail = False,
      memory = [Obj Plain [(''accessToken'', VStr ''abc123''),
                           (''tokenUrl'', VStr ''https://idp.test/token'')],
                Obj Plain [(''foo'', VNum 1)],
                Obj Plain [(''name'', VStr ''Error''),
                           (''message'', VStr ''connect ECONNREFUSED'')]],
      credentialStore = (\<lambda>n. Inr (VRef 0)),
      oauth2Helper = (\<lambda>url. Inl (VRef 2)),
      toStringOf = engine_toString,
      bigintToJSON = engine_bigint,
      arrayLengthOf = engine_arrayLength\<rparr>"

definition scenario_refreshed :: state where
  "scenario_refreshed =
     \<lparr>store = memory scenario_host, fetches = 2,
      probes = [VStr ''https://idp.test/token''],
      dummyUrl = VStr ''https://idp.test/token'', refreshedCredentials = VRef 0\<rparr>"

text \<open>The same host, except that the probe is rejected with \<open>undefined\<close>.\<close>

definition rejecting_host :: host where
  "rejecting_host = scenario_host\<lparr>oauth2Helper := (\<lambda>url. Inl VUndefined)\<rparr>"

definition rejecting_probed :: state where
  "rejecting_probed =
     \<lparr>store = memory scenario_host, fetches = 1,
      probes = [VStr ''https://idp.test/token''],
      dummyUrl = VStr ''https://idp.test/token'', refreshedCredentials = VUndefined\<rparr>"

text \<open>A credential record whose only token is the nested \<open>oauth.access_token\<close>.\<close>

definition oauth_only_host :: host where
  "oauth_only_host =
     \<lparr>getInputData = [\<lparr>json = VRef 2, binary = None, pairedItem = None\<rparr>],
      accessTokenFieldName = ''accessToken'',
      dummyUrlParameter = [],
      continueOnFail = False,
      memory = [Obj Plain [(''oauth'', VRef 1)],
                Obj Plain [(''access_token'', VStr ''T'')],
                Obj Plain [(''foo'', VNum 1)]],
      credentialStore = (\<lambda>n. Inr (VRef 0)),
      oauth2Helper = (\<lambda>url. Inr ()),
      toStringOf = engine_toString,
      bigintToJSON = engine_bigint,
      arrayLengthOf = engine_arrayLength\<rparr>"

text \<open>A credential record with no token at all.\<close>

definition no_token_host :: host where
  "no_token_host =
     \<lparr>getInputData = [\<lparr>json = VRef 1, binary = None, pairedItem = None\<rparr>],
      accessTokenFieldName = ''accessToken'',
      dummyUrlParameter = [],
      continueOnFail = True,
      memory = [Obj Plain [(''clientId'', VStr ''abc'')],
                Obj Plain [(''foo'', VNum 1)]],
      credentialStore = (\<lambda>n. Inr (VRef 0)),
      oauth2Helper = (\<lambda>url. Inr ()),
      toStringOf = engine_toString,
      bigintToJSON = engine_bigint,
      arrayLengthOf = engine_arrayLength\<rparr>"

definition no_token_fetched :: state where
  "no_token_fetched =
     \<lparr>store = memory no_token_host, fetches = 1, probes = [],
      dummyUrl = VStr [], refreshedCredentials = VRef 0\<rparr>"

text \<open>
  Five records in continue-on-failure mode, of which the third is a circular structure;
  and the same batch, except that the third is an object whose \<open>toJSON\<close> throws
  \<open>null\<close>.
\<close>

definition five_items_host :: host where
  "five_items_host =
     \<lparr>getInputData = [\<lparr>json = VRef 1, binary = None, pairedItem = None\<rparr>,
                      \<lparr>json = VRef 2, binary = None, pairedItem = None\<rparr>,
                      \<lparr>json = VRef 3, binary = None, pairedItem = None\<rparr>,
                      \<lparr>json = VRef 4, binary = None, pairedItem = None\<rparr>,
                      \<lparr>json = VRef 5, binary = None, pairedItem = None\<rparr>],
      accessTokenFieldName = ''accessToken'',
      dummyUrlParameter = ''https://idp.test/userinfo'',
      continueOnFail = True,
      memory = [Obj Plain [(''accessToken'', VStr ''T'')],
                Obj Plain [(''n'', VNum 0)],
                Obj Plain [(''n'', VNum 1)],
                Obj Plain [(''self'', VRef 3)],
                Obj Plain [(''n'', VNum 3)],
                Obj Plain [(''n'', VNum 4)]],
      credentialStore = (\<lambda>n. Inr (VRef 0)),
      oauth2Helper = (\<lambda>url. Inr ()),
      toStringOf = engine_toString,
      bigintToJSON = engine_bigint,
      arrayLengthOf = engine_arrayLength\<rparr>"

definition throws_null_host :: host where
  "throws_null_host =
     five_items_host\<lparr>memory := (memory five_items_host)[3 := Obj (Throwing VNull) []]\<rparr>"

definition five_outputs :: "item list" where
  "five_outputs =
     [\<lparr>json = VRef 6, binary = None, pairedItem = Some 0\<rparr>,
      \<lparr>json = VRef 7, binary = None, pairedItem = Some 1\<rparr>,
      error_record 8 2,
      \<lparr>json = VRef 9, binary = None, pairedItem = Some 3\<rparr>,
      \<lparr>json = VRef 10, binary = None, pairedItem = Some 4\<rparr>]"

definition five_final :: state where
  "five_final =
     \<lparr>store = memory five_items_host @
        [Obj Plain [(''n'', VNum 0), (''accessToken'', VStr ''T'')],
         Obj Plain [(''n'', VNum 1), (''accessToken'', VStr ''T'')],
         error_cell (VStr ''Converting circular structure to JSON''),
         Obj Plain [(''n'', VNum 3), (''accessToken'', VStr ''T'')],
         Obj Plain [(''n'', VNum 4), (''accessToken'', VStr ''T'')]],
      fetches = 2, probes = [VStr ''https://idp.test/userinfo''],
      dummyUrl = VStr ''https://idp.test/userinfo'', refreshedCredentials = VRef 0\<rparr>"

definition five_before_third :: state where
  "five_before_third =
     \<lparr>store = memory five_items_host @
        [Obj Plain [(''n'', VNum 0), (''accessToken'', VStr ''T'')],
         Obj Plain [(''n'', VNum 1), (''accessToken'', VStr ''T'')]],
      fetches = 2, probes = [VStr ''https://idp.test/userinfo''],
      dummyUrl = VStr ''https://idp.test/userinfo'', refreshedCredentials = VRef 0\<rparr>"

definition null_before_third :: state where
  "null_before_third =
     five_before_third\<lparr>store := memory throws_null_host @
        [Obj Plain [(''n'', VNum 0), (''accessToken'', VStr ''T'')],
         Obj Plain [(''n'', VNum 1), (''accessToken'', VStr ''T'')]]\<rparr>"

text \<open>
  Three records without continue-on-failure mode. The \<open>toJSON\<close> of the second throws
  the error object at address 4, whose \<open>context\<close> is the object at address 5. In
  the variants, it throws \<open>undefined\<close>, or the \<open>context\<close> of the error is a string.
\<close>

definition abort_host :: host where
  "abort_host =
     \<lparr>getInputData = [\<lparr>json = VRef 1, binary = None, pairedItem = None\<rparr>,
                      \<lparr>json = VRef 2, binary = None, pairedItem = None\<rparr>,
                      \<lparr>json = VRef 3, binary = None, pairedItem = None\<rparr>],
      accessTokenFieldName = ''accessToken'',
      dummyUrlParameter = ''https://idp.test/userinfo'',
      continueOnFail = False,
      memory = [Obj Plain [(''accessToken'', VStr ''T'')],
                Obj Plain [(''n'', VNum 0)],
                Obj (Throwing (VRef 4)) [],
                Obj Plain [(''n'', VNum 2)],
                Obj Plain [(''name'', VStr ''NodeApiError''),
                           (''message'', VStr ''upstream failed''),
                           (''context'', VRef 5)],
                Obj Plain [(''runIndex'', VNum 0)]],
      credentialStore = (\<lambda>n. Inr (VRef 0)),
      oauth2Helper = (\<lambda>url. Inr ()),
      toStringOf = engine_toString,
      bigintToJSON = engine_bigint,
      arrayLengthOf = engine_arrayLength\<rparr>"

definition abort_before_second :: state where
  "abort_before_second =
     \<lparr>store = memory abort_host @ [Obj Plain [(''n'', VNum 0), (''accessToken'', VStr ''T'')]],
      fetches = 2, probes = [VStr ''https://idp.test/userinfo''],
      dummyUrl = VStr ''https://idp.test/userinfo'', refreshedCredentials = VRef 0\<rparr>"

definition throws_undefined_host :: host where
  "throws_undefined_host =
     abort_host\<lparr>memory := (memory abort_host)[2 := Obj (Throwing VUndefined) []]\<rparr>"

definition string_context_host :: host where
  "string_context_host =
     abort_host\<lparr>memory := (memory abort_host)
        [4 := Obj Plain [(''name'', VStr ''NodeApiError''),
                         (''message'', VStr ''upstream failed''),
                         (''context'', VStr ''run 0'')]]\<rparr>"



text \<open>One record whose payload is \<open>{foo: [undefined]}\<close>.\<close>

definition lossy_host :: host where
  "lossy_host =
     \<lparr>getInputData = [\<lparr>json = VRef 1, binary = None, pairedItem = None\<rparr>],
      accessTokenFieldName = ''accessToken'',
      dummyUrlParameter = ''https://idp.test/userinfo'',
      continueOnFail = False,
      memory = [Obj Plain [(''accessToken'', VStr ''T'')],
                Obj Plain [(''foo'', VRef 2)],
                Obj (Array [VUndefined]) []],
      credentialStore = (\<lambda>n. Inr (VRef 0)),
      oauth2Helper = (\<lambda>url. Inr ()),
      toStringOf = engine_toString,
      bigintToJSON = engine_bigint,
      arrayLengthOf = engine_arrayLength\<rparr>"

definition scenario_final :: state where
  "scenario_final =
     scenario_refreshed\<lparr>store := memory scenario_host @
        [Obj Plain [(''foo'', VNum 1), (''accessToken'', VStr ''abc123'')]]\<rparr>"

definition lossy_fetched :: state where
  "lossy_fetched =
     \<lparr>store = memory lossy_host, fetches = 2, probes = [VStr ''https://idp.test/userinfo''],
      dummyUrl = VStr ''https://idp.test/userinfo'', refreshedCredentials = VRef 0\<rparr>"

definition lossy_final :: state where
  "lossy_final =
     lossy_fetched\<lparr>store := memory lossy_host @
        [Obj (Array [VNull]) [],
         Obj Plain [(''foo'', VRef 3), (''accessToken'', VStr ''T'')]]\<rparr>"






section \<open>Properties of the token extraction\<close>

text \<open>
  Claim C6. Top-level priority wins: a record with a non-empty top-level
  \<open>accessToken\<close> yields that value whatever else it holds (so also when
  \<open>access_token\<close> is there too), and a record whose first non-empty top-level field is
  \<open>access_token\<close> yields that value whatever a nested \<open>oauthTokenData\<close> holds.
\<close>

theorem top_level_priority:
  "(truthy (read_prop h c ''accessToken'') \<longrightarrow>
      extractToken h c = read_prop h c ''accessToken'') \<and>
   (\<not> truthy (read_prop h c ''accessToken'') \<and> truthy (read_prop h c ''access_token'') \<longrightarrow>
      extractToken h c = read_prop h c ''access_token'')"
  by (simp add: extractToken_def)

theorem top_level_priority_witness:
  "truthy (read_prop both_tokens (VRef 0) ''accessToken'') \<and>
   truthy (read_prop both_tokens (VRef 0) ''access_token'') \<and>
   extractToken both_tokens (VRef 0) = VStr ''a'' \<and>
   \<not> truthy (read_prop scenario_credentials (VRef 0) ''accessToken'') \<and>
   truthy (read_prop scenario_credentials (VRef 0) ''access_token'') \<and>
   read_prop scenario_credentials (VRef 1) ''accessToken'' = VStr ''should-not-be-used'' \<and>
   extractToken scenario_credentials (VRef 0) = VStr ''xyz''"
  using top_level_priority [of both_tokens "VRef 0"]
        top_level_priority [of scenario_credentials "VRef 0"]
  by (simp add: both_tokens_def scenario_credentials_def read_prop_def lookup_def)

lemma read_prop_falsy: "\<not> truthy v \<Longrightarrow> \<not> truthy (read_prop h v k)"
  by (cases v) (simp_all add: read_prop_def)

text \<open>The earlier build implements the six shapes of the specification.\<close>

lemma earlier_build_six_shapes:
  "spec_TokenExtract h c =
     (if truthy (extractToken_earlier h c) then Some (extractToken_earlier h c) else None)"
  using read_prop_falsy [of "read_prop h c ''oauth''" h "''access_token''"]
        read_prop_falsy [of "read_prop h c ''data''" h "''access_token''"]
        read_prop_falsy [of "read_prop h c ''oauthTokenData''" h "''access_token''"]
        read_prop_falsy [of "read_prop h c ''oauthTokenData''" h "''accessToken''"]
  by (auto simp: spec_TokenExtract_def six_shapes_def extractToken_earlier_def js_or_def
        js_and_def Let_def)

lemma none_of_six_none_of_four:
  "spec_TokenExtract h c = None \<Longrightarrow> \<not> truthy (extractToken h c)"
  by (auto simp: spec_TokenExtract_def six_shapes_def extractToken_def js_or_def Let_def
      split: if_splits)

lemmas phase_defs =
  credential_phases_def refreshTrigger_def refresh_try_def refresh_catch_def credentialFetch_def
  fetch_catch_def bindE_def try_catch_def returnE_def throwE_def attempt_def uncaught_def
  getCredentials_def requestOAuth2_def default_dummyUrl_def optional_chain_def init_state_def
  read_message_def read_context_def call_toString_def

lemmas engine_defs =
  engine_toString_def engine_bigint_def engine_arrayLength_def err_toString_def

lemmas run_defs = phase_defs engine_defs tokenExtract_def extractToken_def read_prop_def
  lookup_def execute_def execute_from_def item_step_def item_try_def item_catch_def cloneJson_def
  stringify_def undefined_json_error_def circular_error_def bigint_error_def TypeError_def
  SyntaxError_def js_or_def Let_def

text \<open>
  Claim C1. The node does not probe the six shapes: a record whose only token is the
  nested \<open>oauth.access_token\<close> has the fourth shape of the specification, and the
  earlier build returns its value, but the extraction of the node finds nothing and
  the invocation ends with the token-not-found error.
\<close>

theorem oauth_only_record_not_extracted:
  "spec_TokenExtract (memory oauth_only_host) (VRef 0) = Some (VStr ''T'') \<and>
   extractToken_earlier (memory oauth_only_host) (VRef 0) = VStr ''T'' \<and>
   extractToken (memory oauth_only_host) (VRef 0) = VUndefined \<and>
   fst (execute oauth_only_host) = Inl (NodeOperationError (VStr no_token_message) [])"
  by (simp add: oauth_only_host_def spec_TokenExtract_def six_shapes_def
      extractToken_earlier_def extractToken_def js_or_def js_and_def read_prop_def lookup_def
      execute_def execute_from_def phase_defs tokenExtract_def)

section \<open>Properties of the credential phases\<close>

lemma uncaught_store: "uncaught f s = (r, s') \<Longrightarrow> s' = s"
  by (auto simp: uncaught_def split: sum.splits)

lemma refresh_try_store: "refresh_try H s = (r, s') \<Longrightarrow> store s' = store s"
  by (auto simp: refresh_try_def bindE_def getCredentials_def requestOAuth2_def attempt_def
      split: sum.splits prod.splits if_splits)

lemma refresh_catch_store: "refresh_catch H e s = (r, s') \<Longrightarrow> store s' = store s"
  by (auto simp: refresh_catch_def bindE_def try_catch_def getCredentials_def returnE_def
        uncaught_def
      split: sum.splits prod.splits if_splits)

lemma refreshTrigger_store: "refreshTrigger H s = (r, s') \<Longrightarrow> store s' = store s"
proof -
  assume run: "refreshTrigger H s = (r, s')"
  obtain r1 s1 where t: "refresh_try H s = (r1, s1)"
    by (cases "refresh_try H s")
  show ?thesis
  proof (cases r1)
    case (Inl e)
    with run t have "refresh_catch H e s1 = (r, s')"
      by (simp add: refreshTrigger_def try_catch_def)
    then show ?thesis
      using refresh_catch_store refresh_try_store [OF t] by metis
  next
    case (Inr u)
    with run t show ?thesis
      using refresh_try_store [OF t] by (auto simp: refreshTrigger_def try_catch_def)
  qed
qed

lemma credentialFetch_store:
  "credentialFetch H s = (r, s') \<Longrightarrow> store s' = store s"
  by (auto simp: credentialFetch_def fetch_catch_def try_catch_def bindE_def getCredentials_def
        throwE_def uncaught_def
      split: sum.splits prod.splits if_splits)

lemma credential_phases_store:
  "credential_phases H s = (r, s') \<Longrightarrow> store s' = store s"
proof -
  assume run: "credential_phases H s = (r, s')"
  obtain r1 s1 where t: "refreshTrigger H s = (r1, s1)"
    by (cases "refreshTrigger H s")
  have s1: "store s1 = store s"
    using refreshTrigger_store [OF t] .
  show ?thesis
  proof (cases r1)
    case (Inl e)
    with run t s1 show ?thesis
      by (simp add: credential_phases_def bindE_def)
  next
    case (Inr u)
    with run t have "credentialFetch H s1 = (r, s')"
      by (simp add: credential_phases_def bindE_def)
    then show ?thesis
      using credentialFetch_store s1 by metis
  qed
qed

lemma execute_from_phases:
  "execute_from H =
     bindE (credential_phases H) (\<lambda>_.
     bindE tokenExtract (\<lambda>accessToken.
     bindE (batchEnrich H accessToken 0 []) (\<lambda>returnItems. returnE [returnItems])))"
  by (auto simp: execute_from_def credential_phases_def bindE_def fun_eq_iff
      split: sum.splits prod.splits)

text \<open>
  Claim C5. When the credential record that reaches the token extraction yields no
  token, the invocation fails with the token-not-found error of the node; it returns no
  output record, and no record of the batch has been processed (the store is as the
  host gave it).
\<close>

theorem token_not_found_is_fatal:
  assumes "credential_phases H (init_state H) = (Inr (), s)"
    and "truthy (refreshedCredentials s)"
    and "\<not> truthy (extractToken (store s) (refreshedCredentials s))"
  shows "execute H = (Inl (NodeOperationError (VStr no_token_message) []), s) \<and>
         store s = memory H"
  using assms credential_phases_store [OF assms(1)]
  by (simp add: execute_def execute_from_phases bindE_def tokenExtract_def init_state_def)

theorem token_not_found_is_fatal_witness:
  "credential_phases no_token_host (init_state no_token_host) = (Inr (), no_token_fetched) \<and>
   truthy (refreshedCredentials no_token_fetched) \<and>
   \<not> truthy (extractToken (store no_token_fetched) (refreshedCredentials no_token_fetched)) \<and>
   spec_TokenExtract (store no_token_fetched) (refreshedCredentials no_token_fetched) = None \<and>
   execute no_token_host =
     (Inl (NodeOperationError (VStr no_token_message) []), no_token_fetched) \<and>
   store no_token_fetched = memory no_token_host"
proof -
  have run: "credential_phases no_token_host (init_state no_token_host) = (Inr (), no_token_fetched)"
    by (simp add: phase_defs no_token_host_def no_token_fetched_def lookup_def)
  have rc: "truthy (refreshedCredentials no_token_fetched)"
    by (simp add: no_token_fetched_def)
  have none: "\<not> truthy (extractToken (store no_token_fetched) (refreshedCredentials no_token_fetched))"
    by (simp add: no_token_fetched_def no_token_host_def extractToken_def read_prop_def lookup_def)
  have six: "spec_TokenExtract (store no_token_fetched) (refreshedCredentials no_token_fetched) = None"
    by (simp add: no_token_fetched_def no_token_host_def spec_TokenExtract_def six_shapes_def
        js_or_def read_prop_def lookup_def)
  show ?thesis
    using token_not_found_is_fatal [OF run rc none] run rc none six by simp
qed

text \<open>
  Claim C9. The second disjunct of the guard of step 2 is redundant: the credential
  fetch, and with it the node, equals the variant with the guard
  \<open>!refreshedCredentials\<close>. A record left by the refresh phase is reused without a
  fetch, and without one the credentials are fetched (once).
\<close>

theorem guard_is_redundant:
  "credentialFetch H = credentialFetch_simplified H \<and>
   execute H = execute_simplified H \<and>
   (\<forall>s. truthy (refreshedCredentials s) \<longrightarrow> credentialFetch H s = (Inr (), s)) \<and>
   (\<forall>s. \<not> truthy (refreshedCredentials s) \<longrightarrow>
        fetches (snd (credentialFetch H s)) = Suc (fetches s))"
proof -
  have eq: "credentialFetch H = credentialFetch_simplified H"
    by (simp add: credentialFetch_def credentialFetch_simplified_def)
  have "execute H = execute_simplified H"
    by (simp add: execute_def execute_from_def execute_simplified_def eq)
  moreover have "credentialFetch H s = (Inr (), s)" if "truthy (refreshedCredentials s)" for s
    using that by (simp add: credentialFetch_def try_catch_def)
  moreover have "fetches (snd (credentialFetch H s)) = Suc (fetches s)"
    if "\<not> truthy (refreshedCredentials s)" for s
    using that
    by (simp add: credentialFetch_def fetch_catch_def try_catch_def bindE_def getCredentials_def
        throwE_def uncaught_def
        split: sum.splits)
  ultimately show ?thesis
    using eq by blast
qed

theorem guard_is_redundant_witness:
  "credentialFetch scenario_host = credentialFetch_simplified scenario_host \<and>
   execute scenario_host = execute_simplified scenario_host \<and>
   truthy (refreshedCredentials scenario_refreshed) \<and>
   truthy (dummyUrl scenario_refreshed) \<and>
   credentialFetch scenario_host scenario_refreshed = (Inr (), scenario_refreshed) \<and>
   \<not> truthy (refreshedCredentials (init_state scenario_host)) \<and>
   fetches (snd (credentialFetch scenario_host (init_state scenario_host))) = Suc 0"
proof -
  note g = guard_is_redundant [of scenario_host]
  have a: "truthy (refreshedCredentials scenario_refreshed)"
    and b: "truthy (dummyUrl scenario_refreshed)"
    and c: "\<not> truthy (refreshedCredentials (init_state scenario_host))"
    by (simp_all add: scenario_refreshed_def init_state_def)
  from g a have reuse: "credentialFetch scenario_host scenario_refreshed = (Inr (), scenario_refreshed)"
    by blast
  from g c have fetch:
    "fetches (snd (credentialFetch scenario_host (init_state scenario_host))) =
       Suc (fetches (init_state scenario_host))"
    by blast
  have "fetches (init_state scenario_host) = 0"
    by (simp add: init_state_def)
  with g a b c reuse fetch show ?thesis
    by simp
qed

section \<open>The refresh trigger and the failures it absorbs\<close>

lemma native_reportable: "reportable H h (NativeError e)"
  by (simp add: reportable_def read_message_def call_toString_def)

lemma reportable_message:
  "reportable H h error \<Longrightarrow>
   \<exists>m text d. read_message h error = Inr m \<and> js_to_string H h m = Inr text \<and>
              call_toString H h error = Inr d"
  by (auto simp: reportable_def split: sum.splits)

lemma refresh_try_thrown:
  assumes "refresh_try H s = (Inl error, s1)"
  shows "(\<exists>e. error = NativeError e) \<or>
         (\<exists>n v. error = ThrownValue v \<and> credentialStore H n = Inl v) \<or>
         (\<exists>u v. error = ThrownValue v \<and> oauth2Helper H u = Inl v)"
  using assms
  by (auto simp: refresh_try_def bindE_def getCredentials_def requestOAuth2_def attempt_def
      split: sum.splits prod.splits if_splits)

text \<open>
  The refresh trigger absorbs every failure that its handler can report: when whatever
  the credential store and the request helper reject with is reportable (an error
  object is), the phase ends normally and leaves the store alone; when its \<open>try\<close>
  block throws, the handler makes at most one more credential fetch and no further
  probe; the phase makes at most two fetches and one probe in all; and the node goes
  on with the credential fetch in the state the phase left.
\<close>

theorem refresh_absorbs_reportable_failures:
  assumes cs: "\<forall>n v. credentialStore H n = Inl v \<longrightarrow> reportable H (store s) (ThrownValue v)"
    and rq: "\<forall>u v. oauth2Helper H u = Inl v \<longrightarrow> reportable H (store s) (ThrownValue v)"
  shows "\<exists>s'. refreshTrigger H s = (Inr (), s') \<and>
      store s' = store s \<and>
      (case refresh_try H s of
         (Inr u, s1) \<Rightarrow> s' = s1
       | (Inl e, s1) \<Rightarrow> fetches s' \<le> Suc (fetches s1) \<and> probes s' = probes s1) \<and>
      fetches s' \<le> fetches s + 2 \<and>
      length (probes s') \<le> Suc (length (probes s)) \<and>
      execute_from H s =
        bindE (credentialFetch H) (\<lambda>_.
        bindE tokenExtract (\<lambda>accessToken.
        bindE (batchEnrich H accessToken 0 []) (\<lambda>returnItems. returnE [returnItems]))) s'"
proof -
  obtain r1 s1 where t: "refresh_try H s = (r1, s1)"
    by (cases "refresh_try H s")
  have st: "store s1 = store s"
    using refresh_try_store [OF t] .
  have cnt: "fetches s1 \<le> Suc (fetches s) \<and> length (probes s1) \<le> Suc (length (probes s))"
    using t
    by (auto simp: refresh_try_def bindE_def getCredentials_def requestOAuth2_def attempt_def
        split: sum.splits prod.splits if_splits)
  have cont: "execute_from H s =
        bindE (credentialFetch H) (\<lambda>_.
        bindE tokenExtract (\<lambda>accessToken.
        bindE (batchEnrich H accessToken 0 []) (\<lambda>returnItems. returnE [returnItems]))) s'"
    if "refreshTrigger H s = (Inr (), s')" for s'
    using that by (simp add: execute_from_def bindE_def)
  show ?thesis
  proof (cases r1)
    case (Inr u)
    with t have "refreshTrigger H s = (Inr (), s1)"
      by (simp add: refreshTrigger_def try_catch_def)
    with t Inr st cnt cont show ?thesis
      by auto
  next
    case (Inl error)
    have rep: "reportable H (store s1) error"
      using refresh_try_thrown [of H s error s1] t Inl cs rq st native_reportable
      by auto
    then obtain m str d where m: "read_message (store s1) error = Inr m"
      "js_to_string H (store s1) m = Inr str" "call_toString H (store s1) error = Inr d"
      using reportable_message by blast
    have inner: "\<exists>m text. read_message (store s1) (ThrownValue v) = Inr m \<and>
        js_to_string H (store s1) m = Inr text"
      if "credentialStore H n = Inl v" for n v
      using cs that st reportable_message [of H "store s1" "ThrownValue v"] by auto
    have "\<exists>s'. refresh_catch H error s1 = (Inr (), s') \<and> store s' = store s1 \<and>
        fetches s' \<le> Suc (fetches s1) \<and> probes s' = probes s1"
    proof (cases "truthy (refreshedCredentials s1)")
      case True
      with m show ?thesis
        by (simp add: refresh_catch_def bindE_def uncaught_def)
    next
      case False
      show ?thesis
      proof (cases "credentialStore H (fetches s1)")
        case (Inr c)
        with m False show ?thesis
          by (simp add: refresh_catch_def bindE_def uncaught_def try_catch_def getCredentials_def)
      next
        case (Inl v)
        from inner [OF Inl] obtain im istr where
          "read_message (store s1) (ThrownValue v) = Inr im" "js_to_string H (store s1) im = Inr istr"
          by blast
        with m False Inl show ?thesis
          by (simp add: refresh_catch_def bindE_def uncaught_def try_catch_def getCredentials_def
              returnE_def)
      qed
    qed
    then obtain s' where c: "refresh_catch H error s1 = (Inr (), s')" "store s' = store s1"
      "fetches s' \<le> Suc (fetches s1)" "probes s' = probes s1"
      by blast
    have "refreshTrigger H s = (Inr (), s')"
      using t Inl c(1) by (simp add: refreshTrigger_def try_catch_def)
    with t Inl c st cnt cont show ?thesis
      by auto
  qed
qed

theorem refresh_absorbs_reportable_failures_witness:
  "oauth2Helper scenario_host (VStr ''https://idp.test/token'') = Inl (VRef 2) \<and>
   reportable scenario_host (memory scenario_host) (ThrownValue (VRef 2)) \<and>
   refresh_try scenario_host (init_state scenario_host) =
     (Inl (ThrownValue (VRef 2)), scenario_refreshed\<lparr>fetches := 1, refreshedCredentials := VUndefined\<rparr>) \<and>
   refreshTrigger scenario_host (init_state scenario_host) = (Inr (), scenario_refreshed) \<and>
   fst (execute scenario_host) = Inr [[\<lparr>json = VRef 3, binary = None, pairedItem = Some 0\<rparr>]]"
proof -
  have rep: "reportable scenario_host (memory scenario_host) (ThrownValue (VRef 2))"
    by (simp add: reportable_def read_message_def call_toString_def scenario_host_def lookup_def
        engine_defs read_prop_def)
  have cs: "\<forall>n v. credentialStore scenario_host n = Inl v \<longrightarrow>
      reportable scenario_host (store (init_state scenario_host)) (ThrownValue v)"
    by (simp add: scenario_host_def)
  have rq: "\<forall>u v. oauth2Helper scenario_host u = Inl v \<longrightarrow>
      reportable scenario_host (store (init_state scenario_host)) (ThrownValue v)"
    using rep by (simp add: scenario_host_def init_state_def)
  have t: "refresh_try scenario_host (init_state scenario_host) =
     (Inl (ThrownValue (VRef 2)), scenario_refreshed\<lparr>fetches := 1, refreshedCredentials := VUndefined\<rparr>)"
    by (simp add: run_defs scenario_host_def scenario_refreshed_def)
  have r: "refreshTrigger scenario_host (init_state scenario_host) = (Inr (), scenario_refreshed)"
    by (simp add: run_defs scenario_host_def scenario_refreshed_def)
  have e: "fst (execute scenario_host) = Inr [[\<lparr>json = VRef 3, binary = None, pairedItem = Some 0\<rparr>]]"
    by (simp add: run_defs scenario_host_def batchEnrich.simps)
  show ?thesis
    using refresh_absorbs_reportable_failures [OF cs rq] rep t r e
    by (simp add: scenario_host_def)
qed

text \<open>
  Claim C8. The refresh trigger does abort the invocation when the probe (or the
  credential store) rejects with \<open>undefined\<close> or \<open>null\<close>: the handler of line 131
  catches the value, but the warning of line 133 reads \<open>error.message\<close>, which throws
  a \<open>TypeError\<close> inside the handler. No fallback fetch is made, the credential fetch
  of step 2 is never reached, and the caller gets the \<open>TypeError\<close>. With the same
  host and an error object as the rejection, the node returns its output.
\<close>

theorem undefined_rejection_aborts_refresh:
  "oauth2Helper rejecting_host (VStr ''https://idp.test/token'') = Inl VUndefined \<and>
   refresh_try rejecting_host (init_state rejecting_host) =
     (Inl (ThrownValue VUndefined), rejecting_probed) \<and>
   refreshTrigger rejecting_host (init_state rejecting_host) =
     (Inl (Escaped (NativeError (TypeError ''Cannot read properties of undefined''))),
      rejecting_probed) \<and>
   execute rejecting_host =
     (Inl (Escaped (NativeError (TypeError ''Cannot read properties of undefined''))),
      rejecting_probed) \<and>
   fetches rejecting_probed = 1 \<and>
   fst (execute scenario_host) = Inr [[\<lparr>json = VRef 3, binary = None, pairedItem = Some 0\<rparr>]]"
  by (simp add: run_defs rejecting_host_def rejecting_probed_def scenario_host_def
      batchEnrich.simps)

section \<open>Properties of the batch loop\<close>

lemma item_try_tag:
  "item_try H tok i s = (Inr it, s') \<Longrightarrow> pairedItem it = Some i"
  by (auto simp: item_try_def Let_def split: sum.splits prod.splits)

lemma item_catch_returns:
  assumes "item_catch H i error t = (Inr it, s')"
  shows "continueOnFail H \<and>
         (\<exists>m. read_message (store t) error = Inr m \<and> it = error_record (length (store t)) i \<and>
               s' = t\<lparr>store := store t @ [error_cell m]\<rparr>)"
proof (cases "continueOnFail H")
  case True
  with assms show ?thesis
    by (auto simp: item_catch_def bindE_def uncaught_def returnE_def error_record_def
          error_cell_def
        split: sum.splits prod.splits)
next
  case False
  with assms show ?thesis
    by (auto simp: item_catch_def bindE_def uncaught_def throwE_def
        split: sum.splits prod.splits if_splits)
qed

lemma item_step_cases:
  assumes "item_step H tok i s = (Inr it, s')"
  shows "item_try H tok i s = (Inr it, s') \<or>
         (\<exists>error t. item_try H tok i s = (Inl error, t) \<and> item_catch H i error t = (Inr it, s'))"
  using assms
  by (cases "item_try H tok i s") (auto simp: item_step_def try_catch_def split: sum.splits)

lemma item_step_tag:
  assumes "item_step H tok i s = (Inr it, s')"
  shows "pairedItem it = Some i"
proof -
  from item_step_cases [OF assms] consider
      "item_try H tok i s = (Inr it, s')"
    | error t where "item_catch H i error t = (Inr it, s')"
    by blast
  then show ?thesis
  proof cases
    case 1
    then show ?thesis by (rule item_try_tag)
  next
    case 2
    from item_catch_returns [OF 2] show ?thesis
      by (auto simp: error_record_def)
  qed
qed

lemma item_step_native_error:
  "continueOnFail H \<Longrightarrow> item_try H tok i s = (Inl (NativeError e), t) \<Longrightarrow>
   item_step H tok i s =
     (Inr (error_record (length (store t)) i),
      t\<lparr>store := store t @ [error_cell (VStr (err_message e))]\<rparr>)"
  by (simp add: item_step_def try_catch_def item_catch_def bindE_def uncaught_def returnE_def
      read_message_def call_toString_def error_record_def error_cell_def)

lemma batchEnrich_aligned:
  "batchEnrich H tok i acc s = (Inr outs, s') \<Longrightarrow>
   i \<le> length (getInputData H) \<Longrightarrow> length acc = i \<Longrightarrow> s = state_before H tok i s0 \<Longrightarrow>
   (\<forall>j<i. fst (item_step H tok j (state_before H tok j s0)) = Inr (acc ! j)) \<Longrightarrow>
   length outs = length (getInputData H) \<and>
   (\<forall>j<length outs. fst (item_step H tok j (state_before H tok j s0)) = Inr (outs ! j))"
proof (induction H tok i acc s rule: batchEnrich.induct)
  case (1 H tok i acc s)
  show ?case
  proof (cases "i < length (getInputData H)")
    case False
    with "1.prems" show ?thesis
      by (simp add: batchEnrich.simps [of H tok i])
  next
    case True
    obtain r s1 where step: "item_step H tok i s = (r, s1)"
      by (cases "item_step H tok i s")
    with True "1.prems"(1) obtain it where r: "r = Inr it"
      and rest: "batchEnrich H tok (Suc i) (acc @ [it]) s1 = (Inr outs, s')"
      by (cases r) (auto simp: batchEnrich.simps [of H tok i])
    have s1: "s1 = state_before H tok (Suc i) s0"
      using step "1.prems"(4) by simp
    have inv: "\<forall>j<Suc i. fst (item_step H tok j (state_before H tok j s0)) = Inr ((acc @ [it]) ! j)"
      using "1.prems"(3,4,5) step r by (auto simp: nth_append less_Suc_eq)
    show ?thesis
      using "1.IH" [OF True _ _ rest _ _ s1 inv] step r True "1.prems"(3)
      by (simp add: item_step_def)
  qed
qed

lemma execute_result:
  "execute H = (Inr r, s') \<Longrightarrow>
   \<exists>tok s outs. batchEnrich H tok 0 [] s = (Inr outs, s') \<and> r = [outs]"
  by (auto simp: execute_def execute_from_def bindE_def returnE_def
      split: sum.splits prod.splits)

text \<open>
  Index alignment. Whenever the node returns, the output has as many records as the
  input and the record at position \<open>i\<close> carries the position tag \<open>i\<close>: it is what
  iteration \<open>i\<close> of the loop produced. An iteration whose \<open>try\<close> block throws
  and which goes on has produced, in place of the item, an error record that carries
  the index of the failing item, and that only in continue-on-failure mode; in that
  mode an error of the engine (a circular structure, say) always gives such a record.
\<close>

theorem index_alignment:
  "(execute H = (Inr r, s') \<longrightarrow>
      (\<exists>outs. r = [outs] \<and> length outs = length (getInputData H) \<and>
         (\<forall>i<length outs. pairedItem (outs ! i) = Some i))) \<and>
   (batchEnrich H tok 0 [] s = (Inr outs, s') \<longrightarrow>
      length outs = length (getInputData H) \<and>
      (\<forall>i<length outs. pairedItem (outs ! i) = Some i \<and>
         fst (item_step H tok i (state_before H tok i s)) = Inr (outs ! i))) \<and>
   (item_try H tok i s = (Inl error, t) \<and> item_step H tok i s = (Inr it, s') \<longrightarrow>
      continueOnFail H \<and>
      (\<exists>m. read_message (store t) error = Inr m \<and> it = error_record (length (store t)) i \<and>
           s' = t\<lparr>store := store t @ [error_cell m]\<rparr>)) \<and>
   (continueOnFail H \<and> item_try H tok i s = (Inl (NativeError e), t) \<longrightarrow>
      item_step H tok i s =
        (Inr (error_record (length (store t)) i),
         t\<lparr>store := store t @ [error_cell (VStr (err_message e))]\<rparr>))"
proof -
  have loop: "length outs = length (getInputData H) \<and>
      (\<forall>i<length outs. pairedItem (outs ! i) = Some i \<and>
         fst (item_step H tok i (state_before H tok i s)) = Inr (outs ! i))"
    if run: "batchEnrich H tok 0 [] s = (Inr outs, s')" for tok s outs s'
  proof -
    have al: "length outs = length (getInputData H) \<and>
      (\<forall>j<length outs. fst (item_step H tok j (state_before H tok j s)) = Inr (outs ! j))"
      using batchEnrich_aligned [OF run, of s] by simp
    have "pairedItem (outs ! j) = Some j" if "j < length outs" for j
    proof -
      from al that have "fst (item_step H tok j (state_before H tok j s)) = Inr (outs ! j)"
        by blast
      then show ?thesis
        using item_step_tag [of H tok j "state_before H tok j s" "outs ! j"]
        by (cases "item_step H tok j (state_before H tok j s)") simp
    qed
    with al show ?thesis by blast
  qed
  have ret: "\<exists>outs. r = [outs] \<and> length outs = length (getInputData H) \<and>
         (\<forall>i<length outs. pairedItem (outs ! i) = Some i)"
    if "execute H = (Inr r, s')"
    using execute_result [OF that] loop by blast
  have handled: "continueOnFail H \<and>
      (\<exists>m. read_message (store t) error = Inr m \<and> it = error_record (length (store t)) i \<and>
           s' = t\<lparr>store := store t @ [error_cell m]\<rparr>)"
    if "item_try H tok i s = (Inl error, t)" "item_step H tok i s = (Inr it, s')"
    using that item_catch_returns [of H i error t it s']
    by (simp add: item_step_def try_catch_def)
  from ret loop [of tok s outs s'] handled item_step_native_error [of H tok i s e t]
  show ?thesis
    by blast
qed

theorem index_alignment_witness:
  "continueOnFail five_items_host \<and>
   execute five_items_host = (Inr [five_outputs], five_final) \<and>
   length five_outputs = length (getInputData five_items_host) \<and>
   map pairedItem five_outputs = [Some 0, Some 1, Some 2, Some 3, Some 4] \<and>
   item_try five_items_host (VStr ''T'') 2 five_before_third =
     (Inl (NativeError circular_error), five_before_third) \<and>
   item_step five_items_host (VStr ''T'') 2 five_before_third =
     (Inr (five_outputs ! 2),
      five_before_third\<lparr>store := store five_before_third @
         [error_cell (VStr ''Converting circular structure to JSON'')]\<rparr>)"
proof -
  have c: "continueOnFail five_items_host"
    by (simp add: five_items_host_def)
  have run: "execute five_items_host = (Inr [five_outputs], five_final)"
    by (simp add: run_defs five_items_host_def five_outputs_def five_final_def
        error_record_def error_cell_def batchEnrich.simps)
  have fail: "item_try five_items_host (VStr ''T'') 2 five_before_third =
     (Inl (NativeError circular_error), five_before_third)"
    by (simp add: run_defs five_items_host_def five_before_third_def)
  have third: "five_outputs ! 2 = error_record (length (store five_before_third)) 2"
    by (simp add: five_outputs_def five_before_third_def five_items_host_def eval_nat_numeral)
  have msg: "err_message circular_error = ''Converting circular structure to JSON''"
    by (simp add: circular_error_def TypeError_def)
  note al = index_alignment [where H = five_items_host and r = "[five_outputs]"
      and s' = five_final and tok = "VStr ''T''" and s = five_before_third and i = 2
      and e = circular_error and t = five_before_third]
  from al c fail have "item_step five_items_host (VStr ''T'') 2 five_before_third =
     (Inr (error_record (length (store five_before_third)) 2),
      five_before_third\<lparr>store := store five_before_third @
         [error_cell (VStr (err_message circular_error))]\<rparr>)"
    by blast
  moreover from al run have "length five_outputs = length (getInputData five_items_host)"
    by simp
  moreover have "map pairedItem five_outputs = [Some 0, Some 1, Some 2, Some 3, Some 4]"
    by (simp add: five_outputs_def error_record_def)
  ultimately show ?thesis
    using c run fail third msg by simp
qed

text \<open>
  Claim C4. In continue-on-failure mode a failing item is not always replaced by an
  error record: when the value thrown while the item is built is \<open>null\<close> (or
  \<open>undefined\<close>), the handler of line 224 catches it, but line 228 reads
  \<open>error.message\<close>, which throws a \<open>TypeError\<close> inside the handler. The loop ends
  there and the node returns no record at all, where five were due. (With a circular
  structure in the same place, the batch of five comes back with the error record third.)
\<close>

theorem thrown_null_aborts_continue_mode:
  "continueOnFail throws_null_host \<and>
   length (getInputData throws_null_host) = 5 \<and>
   item_try throws_null_host (VStr ''T'') 2 null_before_third =
     (Inl (ThrownValue VNull), null_before_third) \<and>
   item_step throws_null_host (VStr ''T'') 2 null_before_third =
     (Inl (Escaped (NativeError (TypeError ''Cannot read properties of null''))),
      null_before_third) \<and>
   execute throws_null_host =
     (Inl (Escaped (NativeError (TypeError ''Cannot read properties of null''))),
      null_before_third) \<and>
   fst (execute five_items_host) = Inr [five_outputs]"
  by (simp add: run_defs throws_null_host_def null_before_third_def five_before_third_def
      five_items_host_def five_outputs_def error_record_def batchEnrich.simps)

lemma map_of_put: "map_of (put k v ps) = (map_of ps)(k \<mapsto> v)"
  by (induction ps) (auto simp: fun_eq_iff)

lemma array_index_itemIndex: "array_index ''itemIndex'' = None"
  by (simp add: array_index_def is_digit_def)

lemma set_prop_itemIndex:
  "c < length h \<Longrightarrow>
   set_prop L h (VRef c) ''itemIndex'' (VNum (int i)) = Inr (h[c := with_itemIndex i (h ! c)])"
  by (cases "h ! c"; cases "case h ! c of Obj kd ps \<Rightarrow> kd")
     (auto simp: array_assign_def array_index_itemIndex split: kind.splits)

text \<open>
  Abort on the failure of an item. Without continue-on-failure mode, an iteration
  whose \<open>try\<close> block throws ends the loop at once, whatever was collected so far. An
  error of the engine is wrapped in a \<open>NodeOperationError\<close> whose options name the
  index of the failing item. A thrown object whose \<open>context\<close> is an object is thrown
  again, the same object, after \<open>itemIndex\<close> has been set in that context object (in
  place, every other entry being kept). A thrown value without context, whose message
  and string form can be read, is wrapped like an error of the engine.
\<close>

theorem abort_on_item_failure:
  assumes "\<not> continueOnFail H" and "i < length (getInputData H)"
    and "item_try H tok i s = (Inl error, t)"
  shows "(\<forall>e. error = NativeError e \<longrightarrow>
            batchEnrich H tok i acc s =
              (Inl (NodeOperationError (js_or (VStr (err_message e)) (VStr ''Error processing item''))
                      [(''itemIndex'', VNum (int i)), (''message'', VStr (err_toString e))]), t)) \<and>
         (\<forall>v c. error = ThrownValue v \<and> get_prop (store t) v ''context'' = Inr (VRef c) \<and>
                 c < length (store t) \<longrightarrow>
            batchEnrich H tok i acc s =
              (Inl (Escaped (ThrownValue v)),
               t\<lparr>store := (store t)[c := with_itemIndex i (store t ! c)]\<rparr>)) \<and>
         (\<forall>ctx m d. read_context (store t) error = Inr ctx \<and> \<not> truthy ctx \<and>
                 read_message (store t) error = Inr m \<and> call_toString H (store t) error = Inr d \<longrightarrow>
            batchEnrich H tok i acc s =
              (Inl (NodeOperationError (js_or m (VStr ''Error processing item''))
                      [(''itemIndex'', VNum (int i)), (''message'', VStr d)]), t))"
proof -
  have loop: "batchEnrich H tok i acc s = (Inl x, s')" if "item_catch H i error t = (Inl x, s')"
    for x s'
    using assms that
    by (simp add: batchEnrich.simps [of H tok i acc s] item_step_def try_catch_def)
  have native: "item_catch H i (NativeError e) t =
      (Inl (NodeOperationError (js_or (VStr (err_message e)) (VStr ''Error processing item''))
              [(''itemIndex'', VNum (int i)), (''message'', VStr (err_toString e))]), t)" for e
    using assms(1)
    by (simp add: item_catch_def bindE_def uncaught_def throwE_def read_context_def
        read_message_def call_toString_def)
  have ctx: "item_catch H i (ThrownValue v) t =
      (Inl (Escaped (ThrownValue v)), t\<lparr>store := (store t)[c := with_itemIndex i (store t ! c)]\<rparr>)"
    if "get_prop (store t) v ''context'' = Inr (VRef c)" "c < length (store t)" for v c
    using assms(1) that
    by (simp add: item_catch_def bindE_def uncaught_def read_context_def set_prop_itemIndex
        del: set_prop.simps)
  have plain: "item_catch H i error t =
      (Inl (NodeOperationError (js_or m (VStr ''Error processing item''))
              [(''itemIndex'', VNum (int i)), (''message'', VStr d)]), t)"
    if "read_context (store t) error = Inr ctx" "\<not> truthy ctx"
      "read_message (store t) error = Inr m" "call_toString H (store t) error = Inr d" for ctx m d
    using assms(1) that
    by (simp add: item_catch_def bindE_def uncaught_def throwE_def)
  show ?thesis
    using loop native ctx plain by blast
qed

theorem abort_on_item_failure_witness:
  "\<not> continueOnFail abort_host \<and> 1 < length (getInputData abort_host) \<and>
   item_try abort_host (VStr ''T'') 1 abort_before_second =
     (Inl (ThrownValue (VRef 4)), abort_before_second) \<and>
   get_prop (store abort_before_second) (VRef 4) ''context'' = Inr (VRef 5) \<and>
   store abort_before_second ! 5 = Obj Plain [(''runIndex'', VNum 0)] \<and>
   execute abort_host =
     (Inl (Escaped (ThrownValue (VRef 4))),
      abort_before_second\<lparr>store := (store abort_before_second)
         [5 := Obj Plain [(''runIndex'', VNum 0), (''itemIndex'', VNum 1)]]\<rparr>) \<and>
   fst (execute (five_items_host\<lparr>continueOnFail := False\<rparr>)) =
     Inl (NodeOperationError (VStr ''Converting circular structure to JSON'')
            [(''itemIndex'', VNum 2),
             (''message'', VStr ''TypeError: Converting circular structure to JSON'')])"
proof -
  have a: "\<not> continueOnFail abort_host" and b: "1 < length (getInputData abort_host)"
    by (simp_all add: abort_host_def)
  have fail: "item_try abort_host (VStr ''T'') 1 abort_before_second =
      (Inl (ThrownValue (VRef 4)), abort_before_second)"
    by (simp add: run_defs abort_host_def abort_before_second_def)
  have ctx: "get_prop (store abort_before_second) (VRef 4) ''context'' = Inr (VRef 5)"
    and len: "5 < length (store abort_before_second)"
    and cell: "store abort_before_second ! 5 = Obj Plain [(''runIndex'', VNum 0)]"
    by (simp_all add: abort_host_def abort_before_second_def lookup_def)
  have run: "execute abort_host =
     (Inl (Escaped (ThrownValue (VRef 4))),
      abort_before_second\<lparr>store := (store abort_before_second)
         [5 := Obj Plain [(''runIndex'', VNum 0), (''itemIndex'', VNum 1)]]\<rparr>)"
    by (simp add: run_defs abort_host_def abort_before_second_def batchEnrich.simps
        array_index_itemIndex)
  have other: "fst (execute (five_items_host\<lparr>continueOnFail := False\<rparr>)) =
     Inl (NodeOperationError (VStr ''Converting circular structure to JSON'')
            [(''itemIndex'', VNum 2),
             (''message'', VStr ''TypeError: Converting circular structure to JSON'')])"
    by (simp add: run_defs five_items_host_def batchEnrich.simps)
  from abort_on_item_failure [OF a b fail, of "[]"] ctx len
  have "batchEnrich abort_host (VStr ''T'') 1 [] abort_before_second =
      (Inl (Escaped (ThrownValue (VRef 4))),
       abort_before_second\<lparr>store := (store abort_before_second)
          [5 := with_itemIndex 1 (store abort_before_second ! 5)]\<rparr>)"
    by blast
  with a b fail ctx cell run other show ?thesis
    by simp
qed

text \<open>
  Claim C7. Without continue-on-failure mode, the error surfaced to the caller does not
  always carry the index of the failing item: when the value thrown while the item is
  built is \<open>undefined\<close> (or \<open>null\<close>), line 233 reads \<open>error.context\<close>, which
  throws a \<open>TypeError\<close> inside the handler, and the caller gets that \<open>TypeError\<close>,
  which names no item. The same happens when the error carries a context that is not
  an object (a string): the assignment of line 234 throws. (When the context is an
  object, the error is thrown again with \<open>itemIndex\<close> set in that object.)
\<close>

theorem thrown_undefined_surfaces_without_index:
  "\<not> continueOnFail throws_undefined_host \<and>
   json (getInputData throws_undefined_host ! 1) = VRef 2 \<and>
   memory throws_undefined_host ! 2 = Obj (Throwing VUndefined) [] \<and>
   fst (execute throws_undefined_host) =
     Inl (Escaped (NativeError (TypeError ''Cannot read properties of undefined''))) \<and>
   read_prop (memory string_context_host) (VRef 4) ''context'' = VStr ''run 0'' \<and>
   fst (execute string_context_host) =
     Inl (Escaped (NativeError (TypeError ''Cannot create property on a primitive value''))) \<and>
   fst (execute abort_host) = Inl (Escaped (ThrownValue (VRef 4))) \<and>
   store (snd (execute abort_host)) ! 5 =
     Obj Plain [(''runIndex'', VNum 0), (''itemIndex'', VNum 1)]"
  by (simp add: run_defs throws_undefined_host_def string_context_host_def abort_host_def
      batchEnrich.simps array_index_itemIndex)

section \<open>Properties of the JSON round trip\<close>

lemma snd_in_snds: "snd p \<in> Basic_BNFs.snds p"
  by (cases p) simp

lemma to_json_props_embed:
  "(\<And>p. p \<in> set kvs \<Longrightarrow> to_json B (embed (snd p)) = Inr (Some (snd p))) \<Longrightarrow>
   to_json_props B (map (map_prod id embed) kvs) = Inr kvs"
  by (induction kvs) auto

lemma to_json_elems_embed:
  "(\<And>j. j \<in> set js \<Longrightarrow> to_json B (embed j) = Inr (Some j)) \<Longrightarrow>
   to_json_elems B (map embed js) = Inr js"
  by (induction js) auto

lemma to_json_embed: "to_json B (embed j) = Inr (Some j)"
proof (induction j)
  case (JArr js)
  then show ?case by (simp add: to_json_elems_embed)
next
  case (JObj kvs)
  have "to_json B (embed (snd p)) = Inr (Some (snd p))" if "p \<in> set kvs" for p
    using JObj [of p "snd p"] that by (simp add: snd_in_snds)
  then show ?case by (simp add: to_json_props_embed)
qed simp_all

lemma jsonable_embed: "jsonable (embed j)"
proof (induction j)
  case (JObj kvs)
  have "jsonable (embed (snd p))" if "p \<in> set kvs" for p
    using JObj [of p "snd p"] that by (simp add: snd_in_snds)
  then show ?case by (auto simp: list_all_iff pred_prod_beta)
qed (simp_all add: list_all_iff)

lemma jsonable_props:
  assumes "\<And>p. p \<in> set ps \<Longrightarrow> jsonable (snd p) \<Longrightarrow>
             \<exists>j. to_json B (snd p) = Inr (Some j) \<and> embed j = snd p"
    and "\<forall>p\<in>set ps. jsonable (snd p)"
  shows "\<exists>kvs. to_json_props B ps = Inr kvs \<and> map (map_prod id embed) kvs = ps"
  using assms
proof (induction ps)
  case Nil
  then show ?case by simp
next
  case (Cons p ps)
  have "\<exists>j. to_json B (snd p) = Inr (Some j) \<and> embed j = snd p"
    using Cons.prems(1) [of p] Cons.prems(2) by simp
  then obtain j where j: "to_json B (snd p) = Inr (Some j)" "embed j = snd p"
    by blast
  have "\<exists>kvs. to_json_props B ps = Inr kvs \<and> map (map_prod id embed) kvs = ps"
  proof (rule Cons.IH)
    fix q assume "q \<in> set ps" "jsonable (snd q)"
    then show "\<exists>j. to_json B (snd q) = Inr (Some j) \<and> embed j = snd q"
      using Cons.prems(1) [of q] by simp
  next
    show "\<forall>q\<in>set ps. jsonable (snd q)"
      using Cons.prems(2) by simp
  qed
  then obtain kvs where kvs: "to_json_props B ps = Inr kvs" "map (map_prod id embed) kvs = ps"
    by blast
  have "map_prod id embed (fst p, j) = p"
    using j(2) by (cases p) simp
  with j kvs show ?case
    by (intro exI [of _ "(fst p, j) # kvs"]) (simp add: id_def)
qed

lemma jsonable_elems:
  assumes "\<And>x. x \<in> set xs \<Longrightarrow> jsonable x \<Longrightarrow> \<exists>j. to_json B x = Inr (Some j) \<and> embed j = x"
    and "\<forall>x\<in>set xs. jsonable x"
  shows "\<exists>js. to_json_elems B xs = Inr js \<and> map embed js = xs"
  using assms
proof (induction xs)
  case Nil
  then show ?case by simp
next
  case (Cons x xs)
  have "\<exists>j. to_json B x = Inr (Some j) \<and> embed j = x"
    using Cons.prems(1) [of x] Cons.prems(2) by simp
  then obtain j where j: "to_json B x = Inr (Some j)" "embed j = x"
    by blast
  have "\<exists>js. to_json_elems B xs = Inr js \<and> map embed js = xs"
  proof (rule Cons.IH)
    fix y assume "y \<in> set xs" "jsonable y"
    then show "\<exists>j. to_json B y = Inr (Some j) \<and> embed j = y"
      using Cons.prems(1) [of y] by simp
  next
    show "\<forall>y\<in>set xs. jsonable y"
      using Cons.prems(2) by simp
  qed
  then obtain js where js: "to_json_elems B xs = Inr js" "map embed js = xs"
    by blast
  with j show ?case
    by (intro exI [of _ "j # js"]) simp
qed

lemma jsonable_to_json:
  "jsonable t \<Longrightarrow> \<exists>j. to_json B t = Inr (Some j) \<and> embed j = t"
proof (induction t)
  case (TObject ps)
  have "\<exists>kvs. to_json_props B ps = Inr kvs \<and> map (map_prod id embed) kvs = ps"
  proof (rule jsonable_props)
    fix p assume "p \<in> set ps" "jsonable (snd p)"
    then show "\<exists>j. to_json B (snd p) = Inr (Some j) \<and> embed j = snd p"
      using TObject.IH [of p "snd p"] by (simp add: snd_in_snds)
  next
    show "\<forall>p\<in>set ps. jsonable (snd p)"
      using TObject.prems by (auto simp: list_all_iff pred_prod_beta)
  qed
  then obtain kvs where "to_json_props B ps = Inr kvs" "map (map_prod id embed) kvs = ps"
    by blast
  then show ?case
    by (intro exI [of _ "JObj kvs"]) simp
next
  case (TArray xs ps)
  have "\<exists>js. to_json_elems B xs = Inr js \<and> map embed js = xs"
  proof (rule jsonable_elems)
    fix x assume "x \<in> set xs" "jsonable x"
    then show "\<exists>j. to_json B x = Inr (Some j) \<and> embed j = x"
      using TArray.IH(1) by blast
  next
    show "\<forall>x\<in>set xs. jsonable x"
      using TArray.prems by (simp add: list_all_iff)
  qed
  then obtain js where "to_json_elems B xs = Inr js" "map embed js = xs"
    by blast
  then show ?case
    using TArray.prems by (intro exI [of _ "JArr js"]) simp
next
  case TNull
  show ?case by (intro exI [of _ JNull]) simp
next
  case (TBool b)
  show ?case by (intro exI [of _ "JBool b"]) simp
next
  case (TNum n)
  show ?case by (intro exI [of _ "JNum n"]) simp
next
  case (TStr s)
  show ?case by (intro exI [of _ "JStr s"]) simp
qed simp_all

lemma jsonable_iff_embed: "jsonable t \<longleftrightarrow> (\<exists>j. embed j = t)"
  using jsonable_to_json jsonable_embed by metis

lemma parse_extends:
  "\<exists>ext. snd (parse j h) = h @ ext"
  "\<exists>ext. snd (parse_props kvs h) = h @ ext"
  "\<exists>ext. snd (parse_elems js h) = h @ ext"
proof (induction j h and kvs h and js h rule: parse_parse_props_parse_elems.induct)
  case (8 p kvs h)
  obtain v h1 where a: "parse (snd p) h = (v, h1)" by (cases "parse (snd p) h")
  obtain ps h2 where b: "parse_props kvs h1 = (ps, h2)" by (cases "parse_props kvs h1")
  from "8.IH"(1) a obtain e1 where "h1 = h @ e1" by auto
  moreover from "8.IH"(2) [OF a [symmetric]] b obtain e2 where "h2 = h1 @ e2" by auto
  ultimately show ?case using a b by simp
next
  case (10 j js h)
  obtain v h1 where a: "parse j h = (v, h1)" by (cases "parse j h")
  obtain xs h2 where b: "parse_elems js h1 = (xs, h2)" by (cases "parse_elems js h1")
  from "10.IH"(1) a obtain e1 where "h1 = h @ e1" by auto
  moreover from "10.IH"(2) [OF a [symmetric]] b obtain e2 where "h2 = h1 @ e2" by auto
  ultimately show ?case using a b by simp
qed (auto split: prod.splits)

lemma parse_length:
  "parse j h = (v, h') \<Longrightarrow> length h \<le> length h'"
  "parse_props kvs h = (ps, h') \<Longrightarrow> length h \<le> length h'"
  "parse_elems js h = (xs, h') \<Longrightarrow> length h \<le> length h'"
  using parse_extends(1) [of j h] parse_extends(2) [of kvs h] parse_extends(3) [of js h]
  by auto

lemma view_parse:
  "parse j h = (v, h') \<Longrightarrow> set stk \<inter> {length h..<length h'} = {} \<Longrightarrow>
     view (h' @ h2) stk v = embed j"
  "parse_props kvs h = (ps, h') \<Longrightarrow> set stk \<inter> {length h..<length h'} = {} \<Longrightarrow>
     map (\<lambda>p. (fst p, view (h' @ h2) stk (snd p))) ps = map (map_prod id embed) kvs"
  "parse_elems js h = (xs, h') \<Longrightarrow> set stk \<inter> {length h..<length h'} = {} \<Longrightarrow>
     map (view (h' @ h2) stk) xs = map embed js"
proof (induction j h and kvs h and js h arbitrary: v h' stk h2 and ps h' stk h2 and xs h' stk h2
    rule: parse_parse_props_parse_elems.induct)
  case (5 js h)
  obtain xs h1 where p: "parse_elems js h = (xs, h1)" by (cases "parse_elems js h")
  with "5.prems" have v: "v = VRef (length h1)" and h': "h' = h1 @ [Obj (Array xs) []]"
    by auto
  have le: "length h \<le> length h1" using parse_length(3) [OF p] .
  have notin: "length h1 \<notin> set stk"
    using "5.prems"(2) le h' by auto
  have disj: "set (length h1 # stk) \<inter> {length h..<length h1} = {}"
    using "5.prems"(2) h' by auto
  have "map (view (h1 @ ([Obj (Array xs) []] @ h2)) (length h1 # stk)) xs = map embed js"
    using "5.IH" [OF p disj] .
  then show ?case
    using v h' notin by simp
next
  case (6 kvs h)
  obtain ps h1 where p: "parse_props kvs h = (ps, h1)" by (cases "parse_props kvs h")
  with "6.prems" have v: "v = VRef (length h1)" and h': "h' = h1 @ [Obj Plain ps]"
    by auto
  have le: "length h \<le> length h1" using parse_length(2) [OF p] .
  have notin: "length h1 \<notin> set stk"
    using "6.prems"(2) le h' by auto
  have disj: "set (length h1 # stk) \<inter> {length h..<length h1} = {}"
    using "6.prems"(2) h' by auto
  have "map (\<lambda>p. (fst p, view (h1 @ ([Obj Plain ps] @ h2)) (length h1 # stk) (snd p))) ps =
        map (map_prod id embed) kvs"
    using "6.IH" [OF p disj] .
  then show ?case
    using v h' notin by simp
next
  case (8 p kvs h)
  obtain v h1 where a: "parse (snd p) h = (v, h1)" by (cases "parse (snd p) h")
  obtain qs h3 where b: "parse_props kvs h1 = (qs, h3)" by (cases "parse_props kvs h1")
  from "8.prems"(1) a b have ps: "ps = (fst p, v) # qs" and h': "h' = h3" by auto
  obtain e where e: "h3 = h1 @ e" using parse_extends(2) [of kvs h1] b by auto
  have l1: "length h \<le> length h1" using parse_length(1) [OF a] .
  have d1: "set stk \<inter> {length h..<length h1} = {}"
    using "8.prems"(2) h' e by auto
  have d2: "set stk \<inter> {length h1..<length h3} = {}"
    using "8.prems"(2) h' l1 by auto
  have "view (h1 @ (e @ h2)) stk v = embed (snd p)"
    using "8.IH"(1) [OF a d1] .
  moreover have "map (\<lambda>p. (fst p, view (h3 @ h2) stk (snd p))) qs = map (map_prod id embed) kvs"
    using "8.IH"(2) [OF a [symmetric] b d2] .
  ultimately show ?case
    using ps h' e by (cases p) (simp add: id_def)
next
  case (10 j js h)
  obtain v h1 where a: "parse j h = (v, h1)" by (cases "parse j h")
  obtain ys h3 where b: "parse_elems js h1 = (ys, h3)" by (cases "parse_elems js h1")
  from "10.prems"(1) a b have xs: "xs = v # ys" and h': "h' = h3" by auto
  obtain e where e: "h3 = h1 @ e" using parse_extends(3) [of js h1] b by auto
  have l1: "length h \<le> length h1" using parse_length(1) [OF a] .
  have d1: "set stk \<inter> {length h..<length h1} = {}"
    using "10.prems"(2) h' e by auto
  have d2: "set stk \<inter> {length h1..<length h3} = {}"
    using "10.prems"(2) h' l1 by auto
  have "view (h1 @ (e @ h2)) stk v = embed j"
    using "10.IH"(1) [OF a d1] .
  moreover have "map (view (h3 @ h2) stk) ys = map embed js"
    using "10.IH"(2) [OF a [symmetric] b d2] .
  ultimately show ?case
    using xs h' e by simp
qed auto

lemma view_append_jsonable:
  "jsonable (view h stk v) \<Longrightarrow> view (h @ ext) stk v = view h stk v"
proof (induction h stk v rule: view.induct)
  case (7 h stk a)
  from "7.prems" have a1: "a \<notin> set stk" and a2: "\<not> length h \<le> a"
    by (auto split: if_splits)
  obtain kd ps where cell: "h ! a = Obj kd ps"
    by (cases "h ! a")
  have same: "(h @ ext) ! a = h ! a" and a3: "\<not> length (h @ ext) \<le> a"
    using a2 by (simp_all add: nth_append)
  show ?case
  proof (cases kd)
    case Plain
    have ch: "jsonable (view h (a # stk) (snd p))" if "p \<in> set ps" for p
      using "7.prems" a1 a2 cell Plain that by (auto simp: list_all_iff pred_prod_beta)
    have "view (h @ ext) (a # stk) (snd p) = view h (a # stk) (snd p)" if "p \<in> set ps" for p
      using "7.IH"(1) [OF a1 a2 cell Plain that ch [OF that]] .
    then show ?thesis
      using a1 a2 a3 cell same Plain by (simp cong: map_cong)
  next
    case (Array xs)
    from "7.prems" a1 a2 cell Array have emp: "ps = []"
      by simp
    have ch: "jsonable (view h (a # stk) x)" if "x \<in> set xs" for x
      using "7.prems" a1 a2 cell Array that by (auto simp: list_all_iff)
    have "view (h @ ext) (a # stk) x = view h (a # stk) x" if "x \<in> set xs" for x
      using "7.IH"(2) [OF a1 a2 cell Array that ch [OF that]] .
    then show ?thesis
      using a1 a2 a3 cell same Array emp by (simp cong: map_cong)
  next
    case Function
    with "7.prems" a1 a2 cell show ?thesis by simp
  next
    case (Throwing w)
    with "7.prems" a1 a2 cell show ?thesis by simp
  qed
qed simp_all

lemma map_put:
  "map (\<lambda>p. (fst p, f (snd p))) (put k v ps) = put k (f v) (map (\<lambda>p. (fst p, f (snd p))) ps)"
  by (induction ps) auto


lemma json_object_cases:
  "json_object t \<Longrightarrow> \<exists>tps. t = TObject tps \<and> jsonable (TObject tps)"
  by (cases t) simp_all

lemma jsonable_put:
  "jsonable (TObject tps) \<Longrightarrow> jsonable t \<Longrightarrow> jsonable (TObject (put k t tps))"
  by (induction tps) (auto simp: pred_prod_beta)

lemma item_try_representable:
  assumes v: "view (store s) [] (json (getInputData H ! i)) = TObject tps"
    and js: "jsonable (TObject tps)"
    and k: "accessTokenFieldName H \<noteq> ''__proto__''"
  shows "\<exists>a ext. item_try H (VStr T) i s =
            (Inr \<lparr>json = VRef a, binary = binary (getInputData H ! i), pairedItem = Some i\<rparr>,
             s\<lparr>store := store s @ ext\<rparr>) \<and>
          view (store s @ ext) [] (VRef a) = TObject (put (accessTokenFieldName H) (TStr T) tps)"
proof -
  let ?h = "store s" and ?d = "json (getInputData H ! i)" and ?k = "accessTokenFieldName H"
  let ?B = "bigintToJSON H"
  obtain j where j: "to_json ?B (TObject tps) = Inr (Some j)" "embed j = TObject tps"
    using jsonable_to_json [OF js] by blast
  then obtain kvs where kvs: "j = JObj kvs" "map (map_prod id embed) kvs = tps"
    by (cases j) auto
  obtain ps h1 where pp: "parse_props kvs ?h = (ps, h1)"
    by (cases "parse_props kvs ?h")
  obtain e where e: "h1 = ?h @ e"
    using parse_extends(2) [of kvs ?h] pp by auto
  have str: "stringify ?B ?h ?d = Inr (Some (JObj kvs))"
    using v j kvs by (simp add: stringify_def)
  have clone: "cloneJson ?B ?h ?d = Inr (VRef (length h1), h1 @ [Obj Plain ps])"
    using str pp by (simp add: cloneJson_def)
  let ?cell = "Obj Plain (put ?k (VStr T) ps)"
  have sp: "set_prop (arrayLengthOf H) (h1 @ [Obj Plain ps]) (VRef (length h1)) ?k (VStr T) =
      Inr (h1 @ [?cell])"
    using k by simp
  have run: "item_try H (VStr T) i s =
      (Inr \<lparr>json = VRef (length h1), binary = binary (getInputData H ! i), pairedItem = Some i\<rparr>,
       s\<lparr>store := ?h @ (e @ [?cell])\<rparr>)"
    using clone sp e by (simp add: item_try_def Let_def del: set_prop.simps)
  have "set [length h1] \<inter> {length ?h..<length h1} = {}"
    by simp
  from view_parse(2) [OF pp this, of "[?cell]"]
  have kids: "map (\<lambda>p. (fst p, view (h1 @ [?cell]) [length h1] (snd p))) ps = tps"
    using kvs by simp
  have "view (h1 @ [?cell]) [] (VRef (length h1)) =
          TObject (map (\<lambda>p. (fst p, view (h1 @ [?cell]) [length h1] (snd p))) (put ?k (VStr T) ps))"
    by simp
  also have "\<dots> = TObject (put ?k (TStr T) tps)"
    using kids by (simp add: map_put)
  finally have "view (?h @ (e @ [?cell])) [] (VRef (length h1)) = TObject (put ?k (TStr T) tps)"
    using e by simp
  with run show ?thesis by blast
qed




lemma item_step_ok:
  "item_try H tok i s = (Inr it, s') \<Longrightarrow> item_step H tok i s = (Inr it, s')"
  by (simp add: item_step_def try_catch_def)

lemma batchEnrich_representable:
  "tok = VStr T \<Longrightarrow> accessTokenFieldName H \<noteq> ''__proto__'' \<Longrightarrow>
   \<forall>j<length (getInputData H). json_object (view h0 [] (json (getInputData H ! j))) \<Longrightarrow>
   store s = h0 @ ext \<Longrightarrow> i \<le> length (getInputData H) \<Longrightarrow> length acc = i \<Longrightarrow>
   (\<forall>j<i. view (store s) [] (json (acc ! j)) =
               with_binding (accessTokenFieldName H) (TStr T) (view h0 [] (json (getInputData H ! j))) \<and>
             binary (acc ! j) = binary (getInputData H ! j) \<and> pairedItem (acc ! j) = Some j) \<Longrightarrow>
   \<exists>outs s'. batchEnrich H tok i acc s = (Inr outs, s') \<and>
        length outs = length (getInputData H) \<and>
        (\<forall>j<length outs. view (store s') [] (json (outs ! j)) =
               with_binding (accessTokenFieldName H) (TStr T) (view h0 [] (json (getInputData H ! j))) \<and>
             binary (outs ! j) = binary (getInputData H ! j) \<and> pairedItem (outs ! j) = Some j)"
proof (induction H tok i acc s arbitrary: ext rule: batchEnrich.induct)
  case (1 H tok i acc s)
  let ?n = "length (getInputData H)" and ?k = "accessTokenFieldName H"
  note tok = "1.prems"(1) and name = "1.prems"(2) and rep = "1.prems"(3) and sto = "1.prems"(4)
    and len = "1.prems"(6) and acc = "1.prems"(7)
  show ?case
  proof (cases "i < ?n")
    case False
    then have "batchEnrich H tok i acc s = (Inr acc, s)"
      by (simp add: batchEnrich.simps [of H tok i acc s])
    moreover have "i = ?n"
      using False "1.prems"(5) by simp
    ultimately show ?thesis
      using len acc sto by auto
  next
    case True
    obtain tps where tps: "view h0 [] (json (getInputData H ! i)) = TObject tps"
      "jsonable (TObject tps)"
      using rep True json_object_cases by blast
    have here: "view (store s) [] (json (getInputData H ! i)) = TObject tps"
      using view_append_jsonable [of h0 "[]" "json (getInputData H ! i)" ext] tps sto
      by simp
    obtain a e where run: "item_try H (VStr T) i s =
            (Inr \<lparr>json = VRef a, binary = binary (getInputData H ! i), pairedItem = Some i\<rparr>,
             s\<lparr>store := store s @ e\<rparr>)"
      and out: "view (store s @ e) [] (VRef a) = TObject (put ?k (TStr T) tps)"
      using item_try_representable [OF here tps(2) name, of T] by blast
    let ?it = "\<lparr>json = VRef a, binary = binary (getInputData H ! i), pairedItem = Some i\<rparr>"
    let ?s1 = "s\<lparr>store := store s @ e\<rparr>"
    have step: "item_step H tok i s = (Inr ?it, ?s1)"
      using item_step_ok [OF run] tok by simp
    have st: "store ?s1 = h0 @ (ext @ e)"
      using sto by simp
    have old: "view (store ?s1) [] (json (acc ! j)) =
                 with_binding ?k (TStr T) (view h0 [] (json (getInputData H ! j)))"
      if ji: "j < i" for j
    proof -
      have "json_object (view h0 [] (json (getInputData H ! j)))"
        using rep True ji by simp
      then obtain qs where qs: "view h0 [] (json (getInputData H ! j)) = TObject qs"
        "jsonable (TObject qs)"
        using json_object_cases by blast
      have eq: "view (store s) [] (json (acc ! j)) = TObject (put ?k (TStr T) qs)"
        using acc ji qs by simp
      have "jsonable (TObject (put ?k (TStr T) qs))"
        using jsonable_put [OF qs(2), of "TStr T"] by simp
      then have "view (store s @ e) [] (json (acc ! j)) = view (store s) [] (json (acc ! j))"
        using view_append_jsonable [of "store s" "[]" "json (acc ! j)" e] eq by simp
      with eq qs show ?thesis by simp
    qed
    have inv: "\<forall>j<Suc i. view (store ?s1) [] (json ((acc @ [?it]) ! j)) =
               with_binding ?k (TStr T) (view h0 [] (json (getInputData H ! j))) \<and>
             binary ((acc @ [?it]) ! j) = binary (getInputData H ! j) \<and>
             pairedItem ((acc @ [?it]) ! j) = Some j"
    proof (intro allI impI)
      fix j assume "j < Suc i"
      then consider "j < i" | "j = i" by linarith
      then show "view (store ?s1) [] (json ((acc @ [?it]) ! j)) =
               with_binding ?k (TStr T) (view h0 [] (json (getInputData H ! j))) \<and>
             binary ((acc @ [?it]) ! j) = binary (getInputData H ! j) \<and>
             pairedItem ((acc @ [?it]) ! j) = Some j"
      proof cases
        case 1
        then show ?thesis
          using old [OF 1] len acc by (simp add: nth_append)
      next
        case 2
        then show ?thesis
          using out tps len by (simp add: nth_append)
      qed
    qed
    have "\<exists>outs s'. batchEnrich H tok (Suc i) (acc @ [?it]) ?s1 = (Inr outs, s') \<and>
        length outs = ?n \<and>
        (\<forall>j<length outs. view (store s') [] (json (outs ! j)) =
               with_binding ?k (TStr T) (view h0 [] (json (getInputData H ! j))) \<and>
             binary (outs ! j) = binary (getInputData H ! j) \<and> pairedItem (outs ! j) = Some j)"
      using "1.IH" [OF True step [symmetric] refl tok name rep st _ _ inv] True len
      by simp
    moreover have "batchEnrich H tok i acc s = batchEnrich H tok (Suc i) (acc @ [?it]) ?s1"
      using True step by (simp add: batchEnrich.simps [of H tok i acc s])
    ultimately show ?thesis
      by simp
  qed
qed

lemma token_phases_store:
  "token_phases H s = (r, s') \<Longrightarrow> store s' = store s"
proof -
  assume run: "token_phases H s = (r, s')"
  obtain r1 s1 where c: "credential_phases H s = (r1, s1)"
    by (cases "credential_phases H s")
  have s1: "store s1 = store s"
    using credential_phases_store [OF c] .
  show ?thesis
  proof (cases r1)
    case (Inl e)
    with run c s1 show ?thesis by (simp add: token_phases_def bindE_def)
  next
    case (Inr u)
    with run c have "tokenExtract s1 = (r, s')"
      by (simp add: token_phases_def bindE_def)
    then have "s' = s1"
      by (auto simp: tokenExtract_def Let_def split: if_splits)
    with s1 show ?thesis by simp
  qed
qed

lemma execute_from_token:
  "execute_from H =
     bindE (token_phases H) (\<lambda>accessToken.
     bindE (batchEnrich H accessToken 0 []) (\<lambda>returnItems. returnE [returnItems]))"
  by (auto simp: execute_from_phases token_phases_def bindE_def fun_eq_iff
      split: sum.splits prod.splits)

text \<open>
  Claim C2, amended. For every input batch of N records whose payloads are
  JSON-representable objects, once the token \<open>T\<close> has been extracted and with the field
  name \<open>accessToken\<close>, the node returns exactly N output records, and the payload of
  each is the payload of the corresponding input record with the binding of
  \<open>accessToken\<close> to \<open>T\<close>.
\<close>

theorem enriched_batch:
  assumes tok: "token_phases H (init_state H) = (Inr (VStr T), s)"
    and name: "accessTokenFieldName H = ''accessToken''"
    and rep: "\<forall>i<length (getInputData H).
                json_object (view (memory H) [] (json (getInputData H ! i)))"
  shows "\<exists>outs s'. execute H = (Inr [outs], s') \<and>
           length outs = length (getInputData H) \<and>
           (\<forall>i<length outs.
              view (store s') [] (json (outs ! i)) =
                with_binding ''accessToken'' (TStr T)
                  (view (memory H) [] (json (getInputData H ! i))))"
proof -
  have st: "store s = memory H @ []"
    using token_phases_store [OF tok] by (simp add: init_state_def)
  have k: "accessTokenFieldName H \<noteq> ''__proto__''"
    using name by simp
  obtain outs s' where run: "batchEnrich H (VStr T) 0 [] s = (Inr outs, s')"
    and len: "length outs = length (getInputData H)"
    and data: "\<forall>j<length outs. view (store s') [] (json (outs ! j)) =
               with_binding (accessTokenFieldName H) (TStr T)
                 (view (memory H) [] (json (getInputData H ! j))) \<and>
             binary (outs ! j) = binary (getInputData H ! j) \<and> pairedItem (outs ! j) = Some j"
    using batchEnrich_representable [OF refl k rep st, of 0 "[]" T] by auto
  have "execute H = (Inr [outs], s')"
    using tok run by (simp add: execute_def execute_from_token bindE_def returnE_def)
  with len data name show ?thesis by auto
qed

theorem enriched_batch_witness:
  "token_phases scenario_host (init_state scenario_host) = (Inr (VStr ''abc123''), scenario_refreshed) \<and>
   accessTokenFieldName scenario_host = ''accessToken'' \<and>
   length (getInputData scenario_host) = 1 \<and>
   json_object (view (memory scenario_host) [] (json (getInputData scenario_host ! 0))) \<and>
   execute scenario_host =
     (Inr [[\<lparr>json = VRef 3, binary = None, pairedItem = Some 0\<rparr>]], scenario_final) \<and>
   view (store scenario_final) [] (VRef 3) =
     TObject [(''foo'', TNum 1), (''accessToken'', TStr ''abc123'')]"
proof -
  have tok: "token_phases scenario_host (init_state scenario_host) =
      (Inr (VStr ''abc123''), scenario_refreshed)"
    by (simp add: run_defs token_phases_def scenario_host_def scenario_refreshed_def)
  have name: "accessTokenFieldName scenario_host = ''accessToken''"
    and len: "length (getInputData scenario_host) = 1"
    by (simp_all add: scenario_host_def)
  have obj: "json_object (view (memory scenario_host) [] (json (getInputData scenario_host ! 0)))"
    by (simp add: scenario_host_def)
  have rep: "\<forall>i<length (getInputData scenario_host).
      json_object (view (memory scenario_host) [] (json (getInputData scenario_host ! i)))"
    using obj len by simp
  have run: "execute scenario_host =
     (Inr [[\<lparr>json = VRef 3, binary = None, pairedItem = Some 0\<rparr>]], scenario_final)"
    by (simp add: run_defs scenario_host_def scenario_final_def scenario_refreshed_def
        batchEnrich.simps)
  have data: "view (store scenario_final) [] (VRef 3) =
     TObject [(''foo'', TNum 1), (''accessToken'', TStr ''abc123'')]"
    by (simp add: scenario_final_def scenario_refreshed_def scenario_host_def)
  show ?thesis
    using enriched_batch [OF tok name rep] tok name len obj run data by simp
qed

text \<open>
  Claim C2 as stated fails: the record \<open>{foo: [undefined]}\<close> comes back as
  \<open>{foo: [null], accessToken: "T"}\<close>, which is not its payload with the binding.
\<close>

theorem lossy_copy_counterexample:
  "token_phases lossy_host (init_state lossy_host) = (Inr (VStr ''T''), lossy_fetched) \<and>
   accessTokenFieldName lossy_host = ''accessToken'' \<and>
   execute lossy_host =
     (Inr [[\<lparr>json = VRef 4, binary = None, pairedItem = Some 0\<rparr>]], lossy_final) \<and>
   view (store lossy_final) [] (VRef 4) =
     TObject [(''foo'', TArray [TNull] []), (''accessToken'', TStr ''T'')] \<and>
   with_binding ''accessToken'' (TStr ''T'')
       (view (memory lossy_host) [] (json (getInputData lossy_host ! 0))) =
     TObject [(''foo'', TArray [TUndefined] []), (''accessToken'', TStr ''T'')] \<and>
   view (store lossy_final) [] (VRef 4) \<noteq>
     with_binding ''accessToken'' (TStr ''T'')
       (view (memory lossy_host) [] (json (getInputData lossy_host ! 0)))"
  by (simp add: run_defs token_phases_def lossy_host_def lossy_fetched_def lossy_final_def batchEnrich.simps)


section \<open>What the batch shares and what it mutates\<close>





























end
